theory Spec2Isabelle
  imports Main "HOL-Library.AList" "HOL-Library.Multiset" "HOL-Library.Word"
begin

section \<open>Worker pools\<close>

text \<open>
  Both stages of nsrip hand a list of jobs to \<open>numWorkers\<close> goroutines through a channel.
  A channel is first-in first-out, so the jobs that have been taken always form a prefix of
  the job list, and at most \<open>numWorkers\<close> of them are unfinished at any time: the job that
  finishes next is one of the first \<open>numWorkers\<close> unfinished jobs. Which one is the
  scheduler's and the network's choice; it is given here by a list of numbers \<open>picks\<close>
  (a missing pick is 0). \<open>pool_order w picks jobs\<close> is the order in which the jobs finish.
  With one worker it is the order of the jobs. A pool is only run with a worker: main ends
  before it starts one when \<open>numWorkers\<close> is not positive, and \<open>resolve_jobs\<close> below
  covers that case for the resolver on its own.
\<close>

definition pick_index :: "nat \<Rightarrow> nat list \<Rightarrow> nat \<Rightarrow> nat" where
  "pick_index w picks n =
     (case picks of [] \<Rightarrow> 0 | p # _ \<Rightarrow> p mod min (max w 1) n)"

function pool_order :: "nat \<Rightarrow> nat list \<Rightarrow> 'a list \<Rightarrow> 'a list" where
  "pool_order w picks [] = []"
| "pool_order w picks (j # js) =
     (let pending = j # js;
          k = pick_index w picks (length pending)
      in (pending ! k) # pool_order w (tl picks) (take k pending @ drop (Suc k) pending))"
  by pat_completeness auto
termination
proof (relation "measure (\<lambda>(w, picks, pending). length pending)", goal_cases)
  case 1
  show ?case by simp
next
  case (2 w picks j js pending k)
  have "0 < min (max w 1) (length pending)" using 2 by simp
  then have "p mod min (max w 1) (length pending) < length pending" for p
    using mod_less_divisor [of "min (max w 1) (length pending)" p] by simp
  then have "k < length pending"
    using 2 by (cases picks) (simp_all add: pick_index_def)
  then show ?case using 2 by simp
qed

section \<open>nameservers.go\<close>

text \<open>
  \<open>net.LookupIP\<close> is the system resolver: for a hostname it returns an error (its message)
  or the addresses found, each given here by its \<open>String()\<close> rendering. A Go \<open>error\<close> is
  modelled by its message.
\<close>

type_synonym lookupIP = "string \<Rightarrow> string + string list"

definition resolveNameserver :: "lookupIP \<Rightarrow> string \<Rightarrow> string + string" where
  "resolveNameserver lookup ns =
     (case lookup ns of
        Inl err \<Rightarrow> Inl (''Failed to resolve nameserver: '' @ err)
      | Inr ips \<Rightarrow>
          (if length ips = 0 then Inl (''No IP addresses found for nameserver: '' @ ns)
           else Inr (ips ! 0)))"

text \<open>
  A message on the \<open>results\<close> channel is a Go map with the single entry \<open>ns: ip\<close>; it is
  the list of its entries. \<open>worker_msg\<close> is the body of the worker's loop: the message for
  one job, with the address found, or with the empty string when the resolution failed.
  \<open>worker\<close> maps the jobs a worker receives to the messages it sends. Each turn of the loop
  calls \<open>resolveNameserver\<close>, and so \<open>net.LookupIP\<close>, once, on the job it received.
\<close>

type_synonym result_msg = "(string \<times> string) list"

definition worker_msg :: "lookupIP \<Rightarrow> string \<Rightarrow> result_msg" where
  "worker_msg lookup ns =
     (case resolveNameserver lookup ns of
        Inl err \<Rightarrow> [(ns, '''')]
      | Inr ip \<Rightarrow> [(ns, ip)])"

fun worker :: "lookupIP \<Rightarrow> string list \<Rightarrow> result_msg list" where
  "worker lookup [] = []"
| "worker lookup (ns # jobs) = worker_msg lookup ns # worker lookup jobs"

text \<open>
  A Go \<open>map[string]string\<close> is an association list with distinct keys; \<open>m[k] = v\<close> is
  \<open>AList.update k v m\<close>, which overwrites the value of a key already present. The two loops
  that drain the \<open>results\<close> channel into \<open>resultsMap\<close>:
\<close>

type_synonym gomap = "(string \<times> string) list"

fun store_result :: "result_msg \<Rightarrow> gomap \<Rightarrow> gomap" where
  "store_result [] resultsMap = resultsMap"
| "store_result ((ns, ip) # result) resultsMap = store_result result (AList.update ip ns resultsMap)"

fun drain_results :: "result_msg list \<Rightarrow> gomap \<Rightarrow> gomap" where
  "drain_results [] resultsMap = resultsMap"
| "drain_results (result # results) resultsMap =
     drain_results results (store_result result resultsMap)"

text \<open>
  \<open>resolve_jobs\<close> is the order in which the hostnames are looked up and their messages reach
  the \<open>results\<close> channel. The \<open>jobs\<close> channel is buffered for the whole input, so with no
  worker (\<open>numWorkers \<le> 0\<close>) the sends still return, the wait group is done at once, the
  \<open>results\<close> channel is closed empty and no hostname is looked up.
\<close>

definition resolve_jobs :: "nat list \<Rightarrow> string list \<Rightarrow> int \<Rightarrow> string list" where
  "resolve_jobs picks nameservers numWorkers =
     (if numWorkers \<le> 0 then [] else pool_order (nat numWorkers) picks nameservers)"

definition resolveNameservers :: "lookupIP \<Rightarrow> nat list \<Rightarrow> string list \<Rightarrow> int \<Rightarrow> gomap" where
  "resolveNameservers lookup picks nameservers numWorkers =
     drain_results (worker lookup (resolve_jobs picks nameservers numWorkers)) []"

text \<open>
  The same three functions with the calls of the resolver made explicit. Here the resolver
  is a function of the hostname and of the state of the network, which it returns changed,
  and each function passes the state on. \<open>logged lookup\<close> is the resolver that answers as
  \<open>lookup\<close> does and whose state is the list of the hostnames it was asked, in the order of
  the calls.
\<close>

type_synonym 'n lookupIP_io = "string \<Rightarrow> 'n \<Rightarrow> (string + string list) \<times> 'n"

definition resolveNameserver_io ::
  "'n lookupIP_io \<Rightarrow> string \<Rightarrow> 'n \<Rightarrow> (string + string) \<times> 'n" where
  "resolveNameserver_io lookup ns net =
     (case lookup ns net of
        (Inl err, net') \<Rightarrow> (Inl (''Failed to resolve nameserver: '' @ err), net')
      | (Inr ips, net') \<Rightarrow>
          (if length ips = 0 then Inl (''No IP addresses found for nameserver: '' @ ns)
           else Inr (ips ! 0), net'))"

fun worker_io :: "'n lookupIP_io \<Rightarrow> string list \<Rightarrow> 'n \<Rightarrow> result_msg list \<times> 'n" where
  "worker_io lookup [] net = ([], net)"
| "worker_io lookup (ns # jobs) net =
     (case resolveNameserver_io lookup ns net of
        (Inl err, net') \<Rightarrow>
          (case worker_io lookup jobs net' of
             (results, net'') \<Rightarrow> ([(ns, '''')] # results, net''))
      | (Inr ip, net') \<Rightarrow>
          (case worker_io lookup jobs net' of
             (results, net'') \<Rightarrow> ([(ns, ip)] # results, net'')))"

definition resolveNameservers_io ::
  "'n lookupIP_io \<Rightarrow> nat list \<Rightarrow> string list \<Rightarrow> int \<Rightarrow> 'n \<Rightarrow> gomap \<times> 'n" where
  "resolveNameservers_io lookup picks nameservers numWorkers net =
     (case worker_io lookup (resolve_jobs picks nameservers numWorkers) net of
        (results, net') \<Rightarrow> (drain_results results [], net'))"

definition logged :: "lookupIP \<Rightarrow> string list lookupIP_io" where
  "logged lookup ns calls = (lookup ns, calls @ [ns])"

section \<open>The query engine\<close>

text \<open>
  A resource record of \<open>github.com/miekg/dns\<close> is a value of the interface \<open>dns.RR\<close>; its
  dynamic type decides the branch of the result consumer. An address record carries the
  rendering of its field \<open>A\<close>, a quad-A record that of its field \<open>AAAA\<close>, a canonical-name
  record its \<open>Target\<close>; a record of any other type carries the name of its Go type and its
  \<open>String()\<close> rendering. A response carries its response code and its answer section.
\<close>

datatype RR = RR_A string | RR_CNAME string | RR_AAAA string | RR_Other string string

record Msg =
  Rcode :: nat
  Answer :: "RR list"

definition RcodeSuccess :: nat where
  "RcodeSuccess = 0"

text \<open>
  \<open>exchange domain nameserver\<close> is \<open>c.Exchange(m, nameserver)\<close> for the client with the
  5-second timeout and the question \<open>(dns.Fqdn(domain), dns.TypeA)\<close>: an error (its
  message), or the response.
\<close>

type_synonym exchange = "string \<Rightarrow> string \<Rightarrow> string + Msg"

definition queryDNS :: "exchange \<Rightarrow> string \<Rightarrow> string \<Rightarrow> string + Msg" where
  "queryDNS exch domain nameserver =
     (case exch domain nameserver of
        Inl err \<Rightarrow> Inl err
      | Inr r \<Rightarrow>
          (if Rcode r \<noteq> RcodeSuccess then Inl (''No answer from nameserver: '' @ nameserver)
           else Inr r))"

section \<open>Progress counters\<close>

text \<open>
  The globals \<open>progress\<close> and \<open>total\<close> are \<open>int32\<close>, both zero when the process starts.
  The reporter goroutine waits for a line on standard input; a failed read is skipped; after
  a line it loads both counters and logs them with the percentage
  \<open>float64(val1)*100/float64(val2)\<close>. An \<open>int32\<close> and its hundredfold are exact in
  \<open>float64\<close>, so the dividend and the divisor are the integers themselves. Go does not
  panic on a floating-point division by zero: the quotient is the IEEE 754 one, not a number
  for 0/0 and an infinity otherwise. The quotient by a divisor other than zero is kept as the
  pair of its operands.
\<close>

datatype float64 = Quotient int int | NaN | PosInf | NegInf

definition float_div :: "int \<Rightarrow> int \<Rightarrow> float64" where
  "float_div x y =
     (if y = 0 then (if x = 0 then NaN else if 0 < x then PosInf else NegInf)
      else Quotient x y)"

datatype progress_line = Progress int int float64

definition reporter :: "bool \<Rightarrow> 32 word \<Rightarrow> 32 word \<Rightarrow> progress_line list" where
  "reporter read_failed progress_now total_now =
     (if read_failed then []
      else (let val1 = sint progress_now; val2 = sint total_now
            in [Progress val1 val2 (float_div (val1 * 100) val2)]))"

section \<open>The result consumer\<close>

text \<open>
  \<open>fmt.Sprintf\<close> with the format \<open>"[%s (%s)] %s => %s\n"\<close> and four operands, and with
  the format \<open>"[%s (%s)] %s\n"\<close> and the same number of operands: the format of the last
  branch has three verbs for four operands, and \<open>fmt\<close> appends the operand left over as
  \<open>%!(EXTRA type=value)\<close>.
\<close>

definition sprintf_arrow :: "string \<Rightarrow> string \<Rightarrow> string \<Rightarrow> string \<Rightarrow> string" where
  "sprintf_arrow nsName nsIP domain v =
     ''['' @ nsName @ '' ('' @ nsIP @ '')] '' @ domain @ '' => '' @ v @ ''\<newline>''"

definition sprintf_plain :: "string \<Rightarrow> string \<Rightarrow> string \<Rightarrow> string \<Rightarrow> string \<Rightarrow> string" where
  "sprintf_plain nsName nsIP domain ty v =
     ''['' @ nsName @ '' ('' @ nsIP @ '')] '' @ domain @ ''\<newline>''
       @ ''%!(EXTRA '' @ ty @ ''='' @ v @ '')''"

text \<open>
  The consumer hands \<open>outputStr\<close> to \<open>fmt.Fprintf\<close> and to \<open>color.Printf\<close> as the format,
  with no operand. What \<open>fmt\<close> writes for a format and no operand is the parameter
  \<open>fprintf0\<close>. The colour of a console write is kept as a tag.
\<close>

datatype colour = FgGreen | FgYellow | FgRed

datatype out_event = FileWrite string | Console colour string

definition emit :: "(string \<Rightarrow> string) \<Rightarrow> bool \<Rightarrow> colour \<Rightarrow> string \<Rightarrow> out_event list" where
  "emit fprintf0 fHandle c outputStr =
     (if fHandle then [FileWrite (fprintf0 outputStr)] else []) @ [Console c (fprintf0 outputStr)]"

fun show_record ::
  "(string \<Rightarrow> string) \<Rightarrow> bool \<Rightarrow> string \<Rightarrow> string \<Rightarrow> string \<Rightarrow> RR \<Rightarrow> out_event list" where
  "show_record fprintf0 fHandle nsName nsIP domain (RR_A a) =
     emit fprintf0 fHandle FgGreen (sprintf_arrow nsName nsIP domain a)"
| "show_record fprintf0 fHandle nsName nsIP domain (RR_CNAME target) =
     emit fprintf0 fHandle FgGreen (sprintf_arrow nsName nsIP domain target)"
| "show_record fprintf0 fHandle nsName nsIP domain (RR_AAAA aaaa) =
     emit fprintf0 fHandle FgGreen (sprintf_arrow nsName nsIP domain aaaa)"
| "show_record fprintf0 fHandle nsName nsIP domain (RR_Other ty rendering) =
     emit fprintf0 fHandle FgYellow (sprintf_plain nsName nsIP domain ty rendering)"

record wrappedAnswer =
  wa_nsIP :: string
  wa_domain :: string
  wa_answer :: Msg

text \<open>Reading a Go map at a key it does not hold gives the empty string.\<close>

definition map_index :: "gomap \<Rightarrow> string \<Rightarrow> string" where
  "map_index m k = (case map_of m k of None \<Rightarrow> '''' | Some v \<Rightarrow> v)"

definition show_result ::
  "(string \<Rightarrow> string) \<Rightarrow> bool \<Rightarrow> gomap \<Rightarrow> wrappedAnswer \<Rightarrow> out_event list" where
  "show_result fprintf0 fHandle mappedNameservers result =
     (let dom = wa_domain result;
          ip = wa_nsIP result;
          nsName = map_index mappedNameservers ip;
          resp = wa_answer result
      in if length (Answer resp) > 0
         then concat (map (show_record fprintf0 fHandle nsName ip dom) (Answer resp))
         else [])"

definition consumer ::
  "(string \<Rightarrow> string) \<Rightarrow> bool \<Rightarrow> gomap \<Rightarrow> wrappedAnswer list \<Rightarrow> out_event list" where
  "consumer fprintf0 fHandle mappedNameservers queryAnswers =
     concat (map (show_result fprintf0 fHandle mappedNameservers) queryAnswers)"

section \<open>The query workers\<close>

text \<open>
  \<open>strings.Split(s, sep)\<close> for a separator of one character: the pieces of \<open>s\<close> between
  the separators, one more than there are separators.
\<close>

fun strings_Split :: "string \<Rightarrow> char \<Rightarrow> string list" where
  "strings_Split [] sep = [[]]"
| "strings_Split (c # s) sep =
     (if c = sep then [] # strings_Split s sep
      else (case strings_Split s sep of
              [] \<Rightarrow> [[c]]
            | part # parts \<Rightarrow> (c # part) # parts))"

text \<open>
  The state the query workers share: the counter \<open>progress\<close>, the answers sent on the
  \<open>queryAnswers\<close> channel, the lines the workers print in verbose mode, and the exchanges
  made with nameservers (domain and server address). The effects of one job are taken
  together, at the moment the job finishes.
\<close>

record qstate =
  q_progress :: "32 word"
  q_answers :: "wrappedAnswer list"
  q_errors :: "out_event list"
  q_exchanges :: "(string \<times> string) list"

definition query_job ::
  "exchange \<Rightarrow> (string \<Rightarrow> string) \<Rightarrow> bool \<Rightarrow> string \<Rightarrow> qstate \<Rightarrow> qstate" where
  "query_job exch fprintf0 verboseMode query st =
     (let parts = strings_Split query (CHR ''|'')
      in if length parts \<noteq> 2 then st
         else (let dom = parts ! 0;
                   ip = parts ! 1;
                   res = queryDNS exch dom (ip @ '':53'');
                   st1 = st\<lparr>q_exchanges := q_exchanges st @ [(dom, ip @ '':53'')],
                            q_progress := q_progress st + 1\<rparr>
               in (case res of
                     Inl err \<Rightarrow>
                       (if verboseMode
                        then st1\<lparr>q_errors := q_errors st1
                                   @ [Console FgRed (fprintf0 (''[-] '' @ err @ ''\<newline>''))]\<rparr>
                        else st1)
                   | Inr resp \<Rightarrow>
                       st1\<lparr>q_answers := q_answers st1
                              @ [\<lparr>wa_nsIP = ip, wa_domain = dom, wa_answer = resp\<rparr>]\<rparr>)))"

fun query_worker ::
  "exchange \<Rightarrow> (string \<Rightarrow> string) \<Rightarrow> bool \<Rightarrow> string list \<Rightarrow> qstate \<Rightarrow> qstate" where
  "query_worker exch fprintf0 verboseMode [] st = st"
| "query_worker exch fprintf0 verboseMode (query # pendingQueries) st =
     query_worker exch fprintf0 verboseMode pendingQueries
       (query_job exch fprintf0 verboseMode query st)"

text \<open>
  A job is well formed when the worker's split at \<open>|\<close> gives exactly two parts; the worker
  skips any other job.
\<close>

definition well_formed :: "string \<Rightarrow> bool" where
  "well_formed query = (length (strings_Split query (CHR ''|'')) = 2)"

section \<open>The dispatch loop\<close>

text \<open>
  A \<open>range\<close> over a Go map visits its keys in an order the language leaves open: any order,
  given by \<open>picks\<close>. The dispatch loop skips the empty key and sends one job for each domain
  and each other key.
\<close>

definition map_range :: "nat list \<Rightarrow> gomap \<Rightarrow> string list" where
  "map_range picks m = pool_order (length m) picks (map fst m)"

definition dispatch :: "nat list \<Rightarrow> gomap \<Rightarrow> string list \<Rightarrow> string list" where
  "dispatch picks mappedNameservers domainsList =
     concat (map (\<lambda>ip. if ip = '''' then []
                        else map (\<lambda>dom. dom @ ''|'' @ ip) domainsList)
                 (map_range picks mappedNameservers))"

section \<open>main\<close>

text \<open>
  The flags, the collaborators of the process, and the choices of the scheduler. Opening
  and scanning a list file gives an error on \<open>os.Open\<close>, an error of the scanner, or the
  lines of the file; creating the output file gives an error or succeeds.
\<close>

record config =
  cfg_nameservers :: string
  cfg_domain :: string
  cfg_list :: string
  cfg_workers :: int
  cfg_quiet :: bool
  cfg_verbose :: bool
  cfg_output :: string

datatype file_result = OpenErr string | ScanErr string | FileLines "string list"

record env =
  readLines :: "string \<Rightarrow> file_result"
  createFile :: "string \<Rightarrow> string option"
  netLookupIP :: lookupIP
  dnsExchange :: exchange
  fmtNoArgs :: "string \<Rightarrow> string"

record sched =
  resolve_picks :: "nat list"
  range_picks :: "nat list"
  query_picks :: "nat list"

text \<open>
  What the main goroutine does, in program order: the lines it prints on standard output,
  the files it opens, and the call of \<open>log.Fatalf\<close> that ends the process, if any.
\<close>

datatype event =
    Banner
  | Version
  | InfoQueries nat nat nat
  | InfoWorkers int
  | InfoMapping
  | InfoPressEnter
  | InfoQuerying
  | OsOpen string
  | OsOpenFile string

datatype fatal =
    InvalidWorkers int
  | ErrorOpening string string
  | ErrorReading string string
  | NoDomain
  | NoOutputFile string

definition validProviders :: "(string \<times> string list) list" where
  "validProviders =
     [(''aws'', [''nslists/aws.txt'']),
      (''azure'', [''nslists/azure.txt'']),
      (''gcp'', [''nslists/gcp.txt'']),
      (''cloud'', [''nslists/aws.txt'', ''nslists/azure.txt'', ''nslists/gcp.txt''])]"

definition provider_lists :: "config \<Rightarrow> string list" where
  "provider_lists cfg =
     (case map_of validProviders (cfg_nameservers cfg) of
        Some files \<Rightarrow> files
      | None \<Rightarrow> [cfg_nameservers cfg])"

fun read_lists ::
  "(string \<Rightarrow> file_result) \<Rightarrow> string list \<Rightarrow> string list \<Rightarrow> event list \<times> (fatal + string list)" where
  "read_lists rd [] nameservers = ([], Inr nameservers)"
| "read_lists rd (filename # providerLists) nameservers =
     (case rd filename of
        OpenErr err \<Rightarrow> ([OsOpen filename], Inl (ErrorOpening filename err))
      | ScanErr err \<Rightarrow> ([OsOpen filename], Inl (ErrorReading filename err))
      | FileLines ls \<Rightarrow>
          (case read_lists rd providerLists (nameservers @ ls) of
             (ev, r) \<Rightarrow> (OsOpen filename # ev, r)))"

definition read_domains ::
  "(string \<Rightarrow> file_result) \<Rightarrow> config \<Rightarrow> event list \<times> (fatal + string list)" where
  "read_domains rd cfg =
     (if cfg_list cfg \<noteq> ''''
      then (case rd (cfg_list cfg) of
              OpenErr err \<Rightarrow> ([OsOpen (cfg_list cfg)], Inl (ErrorOpening (cfg_list cfg) err))
            | ScanErr err \<Rightarrow> ([OsOpen (cfg_list cfg)], Inl (ErrorReading (cfg_list cfg) err))
            | FileLines ls \<Rightarrow> ([OsOpen (cfg_list cfg)], Inr ls))
      else if cfg_domain cfg = '''' then ([], Inl NoDomain)
      else ([], Inr [cfg_domain cfg]))"

text \<open>
  A run of the process: the events of the main goroutine, the fatal error that ended it (if
  any), the hostnames looked up, the nameserver map, the stored \<open>total\<close>, the jobs sent on
  \<open>pendingQueries\<close>, the state the query workers leave and what the result consumer wrote.
  The stored total is \<open>int32(sampleSize)\<close>, the low 32 bits of the product of the two
  lengths. \<open>query_phase\<close> is main from the count of the queries on, \<open>fatalf\<close> a run that
  ended in \<open>log.Fatalf\<close> before it.
\<close>

record run =
  events :: "event list"
  fatal_exit :: "fatal option"
  lookups :: "string list"
  mapped :: gomap
  total_stored :: "32 word"
  queries :: "string list"
  final :: qstate
  shown :: "out_event list"

definition qstate0 :: qstate where
  "qstate0 = \<lparr>q_progress = 0, q_answers = [], q_errors = [], q_exchanges = []\<rparr>"

definition fatalf :: "event list \<Rightarrow> fatal \<Rightarrow> run" where
  "fatalf ev f =
     \<lparr>events = ev, fatal_exit = Some f, lookups = [], mapped = [], total_stored = 0,
      queries = [], final = qstate0, shown = []\<rparr>"

definition query_phase ::
  "env \<Rightarrow> sched \<Rightarrow> config \<Rightarrow> event list \<Rightarrow> string list \<Rightarrow> string list \<Rightarrow> run" where
  "query_phase e s cfg ev nameservers domainsList =
     (let numNameservers = length nameservers;
          numDomains = length domainsList;
          sampleSize = numDomains * numNameservers;
          ev3 = (if \<not> cfg_quiet cfg
                 then [InfoQueries numDomains numNameservers sampleSize,
                       InfoWorkers (cfg_workers cfg), InfoMapping, InfoPressEnter]
                 else []);
          looked = resolve_jobs (resolve_picks s) nameservers (cfg_workers cfg);
          mappedNameservers =
            resolveNameservers (netLookupIP e) (resolve_picks s) nameservers (cfg_workers cfg);
          ev4 = (if \<not> cfg_quiet cfg then [InfoQuerying] else []);
          tot = (word_of_nat sampleSize :: 32 word);
          started = \<lparr>events = ev @ ev3 @ ev4, fatal_exit = None, lookups = looked,
                     mapped = mappedNameservers, total_stored = tot, queries = [],
                     final = qstate0, shown = []\<rparr>
      in (case (if cfg_output cfg \<noteq> '''' then createFile e (cfg_output cfg) else None) of
            Some err \<Rightarrow>
              started\<lparr>events := ev @ ev3 @ ev4 @ [OsOpenFile (cfg_output cfg)],
                      fatal_exit := Some (NoOutputFile err)\<rparr>
          | None \<Rightarrow>
              (let ev5 = (if cfg_output cfg \<noteq> '''' then [OsOpenFile (cfg_output cfg)] else []);
                   pendingQueries = dispatch (range_picks s) mappedNameservers domainsList;
                   st = query_worker (dnsExchange e) (fmtNoArgs e) (cfg_verbose cfg)
                          (pool_order (nat (cfg_workers cfg)) (query_picks s) pendingQueries)
                          qstate0
               in started\<lparr>events := ev @ ev3 @ ev4 @ ev5,
                          queries := pendingQueries,
                          final := st,
                          shown := consumer (fmtNoArgs e) (cfg_output cfg \<noteq> '''')
                                     mappedNameservers (q_answers st)\<rparr>)))"

definition main :: "env \<Rightarrow> sched \<Rightarrow> config \<Rightarrow> run" where
  "main e s cfg =
     (let ev0 = (if \<not> cfg_quiet cfg then [Banner, Version] else []);
          providerLists = provider_lists cfg
      in if cfg_workers cfg \<le> 0 then fatalf ev0 (InvalidWorkers (cfg_workers cfg))
         else (case read_lists (readLines e) providerLists [] of
                 (ev1, Inl f) \<Rightarrow> fatalf (ev0 @ ev1) f
               | (ev1, Inr nameservers) \<Rightarrow>
                   (case read_domains (readLines e) cfg of
                      (ev2, Inl f) \<Rightarrow> fatalf (ev0 @ ev1 @ ev2) f
                    | (ev2, Inr domainsList) \<Rightarrow>
                        query_phase e s cfg (ev0 @ ev1 @ ev2) nameservers domainsList)))"

section \<open>The classification of the specification\<close>

text \<open>
  The specification's classified record, in its words: an address record is tagged \<open>A\<close>, a
  quad-A record \<open>AAAA\<close>, a canonical-name record \<open>CNAME\<close> and stores the target name,
  anything else is tagged \<open>Other\<close> and stores a human-readable rendering of the record.
\<close>

datatype ClassifiedRecord =
    Class_A string
  | Class_AAAA string
  | Class_CNAME string
  | Class_Other string

fun spec_classify :: "RR \<Rightarrow> ClassifiedRecord" where
  "spec_classify (RR_A a) = Class_A a"
| "spec_classify (RR_AAAA aaaa) = Class_AAAA aaaa"
| "spec_classify (RR_CNAME target) = Class_CNAME target"
| "spec_classify (RR_Other ty rendering) = Class_Other rendering"

text \<open>What reaches the console, and what reaches the output file, of a list of writes.\<close>

fun consoles :: "out_event list \<Rightarrow> (colour \<times> string) list" where
  "consoles [] = []"
| "consoles (FileWrite text # es) = consoles es"
| "consoles (Console c text # es) = (c, text) # consoles es"

fun file_writes :: "out_event list \<Rightarrow> string list" where
  "file_writes [] = []"
| "file_writes (FileWrite text # es) = text # file_writes es"
| "file_writes (Console c text # es) = file_writes es"

text \<open>
  The name of the Go type of a record, which \<open>fmt\<close> writes for an operand left over.
\<close>

fun go_type :: "RR \<Rightarrow> string" where
  "go_type (RR_A a) = ''*dns.A''"
| "go_type (RR_CNAME target) = ''*dns.CNAME''"
| "go_type (RR_AAAA aaaa) = ''*dns.AAAA''"
| "go_type (RR_Other ty rendering) = ty"

section \<open>Sample inputs\<close>

text \<open>
  A resolver that knows three nameservers, two of them at the same address, one hostname
  with no address and no other hostname.
\<close>

definition sample_lookup :: lookupIP where
  "sample_lookup ns =
     (if ns = ''ns1.example'' then Inr [''203.0.113.5'']
      else if ns = ''ns2.example'' then Inr [''203.0.113.5'', ''203.0.113.6'']
      else if ns = ''ns3.example'' then Inr [''203.0.113.7'']
      else if ns = ''empty.example'' then Inr []
      else Inl ''no such host'')"

text \<open>
  A network in which the nameserver at 203.0.113.5 answers for four domains (with an
  address; with a canonical name and an address; with a redirection record and a quad-A
  address; with no record at all), refuses a fifth, and nothing else answers in time.
\<close>

definition sample_exchange :: exchange where
  "sample_exchange d nameserver =
     (if nameserver \<noteq> ''203.0.113.5:53'' then Inl ''i/o timeout''
      else if d = ''a.test'' then Inr \<lparr>Rcode = 0, Answer = [RR_A ''198.51.100.9'']\<rparr>
      else if d = ''www.a.test''
        then Inr \<lparr>Rcode = 0, Answer = [RR_CNAME ''a.test.'', RR_A ''198.51.100.9'']\<rparr>
      else if d = ''old.a.test''
        then Inr \<lparr>Rcode = 0,
                  Answer = [RR_Other ''*dns.DNAME'' ''old.a.test. 300 IN DNAME a.test.'',
                            RR_AAAA ''2001:db8::9'']\<rparr>
      else if d = ''empty.test'' then Inr \<lparr>Rcode = 0, Answer = []\<rparr>
      else if d = ''refused.test'' then Inr \<lparr>Rcode = 5, Answer = []\<rparr>
      else Inl ''i/o timeout'')"

text \<open>
  A file system with three list files, in which any output file can be created; a formatter
  that copies its format, as \<open>fmt\<close> does for a format without a percent sign; a scheduler
  that always lets the oldest job finish first.
\<close>

definition sample_files :: "string \<Rightarrow> file_result" where
  "sample_files filename =
     (if filename = ''one.txt'' then FileLines [''ns1.example'']
      else if filename = ''two.txt'' then FileLines [''ns1.example'', ''nx.example'']
      else if filename = ''domains.txt'' then FileLines [''a.test'', ''empty.test'']
      else OpenErr ''no such file or directory'')"

definition sample_env :: env where
  "sample_env =
     \<lparr>readLines = sample_files, createFile = (\<lambda>filename. None),
      netLookupIP = sample_lookup, dnsExchange = sample_exchange,
      fmtNoArgs = (\<lambda>format. format)\<rparr>"

definition sample_sched :: sched where
  "sample_sched = \<lparr>resolve_picks = [], range_picks = [], query_picks = []\<rparr>"

definition sample_config :: config where
  "sample_config =
     \<lparr>cfg_nameservers = ''one.txt'', cfg_domain = ''a.test'', cfg_list = '''',
      cfg_workers = 1, cfg_quiet = False, cfg_verbose = True, cfg_output = ''out.txt''\<rparr>"

section \<open>Properties of the worker pools\<close>

lemma pick_index_less: "0 < n \<Longrightarrow> pick_index w picks n < n"
proof (cases picks)
  case Nil
  assume "0 < n"
  then show ?thesis using Nil by (simp add: pick_index_def)
next
  case (Cons p ps)
  assume n: "0 < n"
  then have "0 < min (max w 1) n" by simp
  then have "p mod min (max w 1) n < min (max w 1) n" by (rule mod_less_divisor)
  then show ?thesis using Cons by (simp add: pick_index_def)
qed

text \<open>Every job finishes exactly once: the order of completion is a permutation of the jobs.\<close>

lemma mset_pool_order: "mset (pool_order w picks xs) = mset xs"
proof (induction w picks xs rule: pool_order.induct)
  case (1 w picks)
  show ?case by simp
next
  case (2 w picks j js)
  define pending where "pending = j # js"
  define k where "k = pick_index w picks (length pending)"
  have k: "k < length pending" unfolding k_def pending_def by (simp add: pick_index_less)
  have IH: "mset (pool_order w (tl picks) (take k pending @ drop (Suc k) pending))
            = mset (take k pending @ drop (Suc k) pending)"
    using 2[OF pending_def k_def] .
  have split: "pending = take k pending @ (pending ! k) # drop (Suc k) pending"
    using k by (simp add: id_take_nth_drop)
  have "mset pending = add_mset (pending ! k) (mset (take k pending @ drop (Suc k) pending))"
    by (subst split) simp
  moreover have "pool_order w picks (j # js)
      = (pending ! k) # pool_order w (tl picks) (take k pending @ drop (Suc k) pending)"
    by (simp add: pending_def k_def Let_def)
  ultimately show ?case using IH by (simp add: pending_def)
qed

lemma set_pool_order: "set (pool_order w picks xs) = set xs"
  using mset_pool_order [of w picks xs] by (metis set_mset_mset)

lemma length_pool_order: "length (pool_order w picks xs) = length xs"
  using mset_pool_order [of w picks xs] by (metis size_mset)

lemma distinct_pool_order: "distinct (pool_order w picks xs) = distinct xs"
  using mset_pool_order [of w picks xs] by (metis mset_eq_imp_distinct_iff)

text \<open>One worker finishes the jobs in the order of the channel.\<close>

lemma pool_order_one_worker: "pool_order 1 picks xs = xs"
proof (induction "1::nat" picks xs rule: pool_order.induct)
  case (1 picks)
  show ?case by simp
next
  case (2 picks j js)
  have k: "pick_index 1 picks (Suc (length js)) = 0"
    by (cases picks) (simp_all add: pick_index_def)
  show ?case using 2 k by (simp add: Let_def)
qed

section \<open>Properties of the nameserver resolution\<close>

lemma worker_map: "worker lookup jobs = map (worker_msg lookup) jobs"
  by (induction jobs) simp_all

lemma store_result_map_of:
  "map_of (store_result result m) = map_of (rev (map prod.swap result) @ m)"
proof (induction result arbitrary: m)
  case Nil
  show ?case by simp
next
  case (Cons a result)
  obtain ns ip where a: "a = (ns, ip)" by (cases a)
  show ?case
    by (simp add: a Cons.IH map_of_append update_conv')
qed

lemma drain_results_map_of:
  "map_of (drain_results results m) = map_of (rev (map prod.swap (concat results)) @ m)"
proof (induction results arbitrary: m)
  case Nil
  show ?case by simp
next
  case (Cons r results)
  show ?case
    by (simp add: Cons.IH store_result_map_of map_of_append)
qed

lemma store_result_distinct:
  "distinct (map fst m) \<Longrightarrow> distinct (map fst (store_result result m))"
  by (induction result arbitrary: m) (auto simp: distinct_update)

lemma drain_results_distinct:
  "distinct (map fst m) \<Longrightarrow> distinct (map fst (drain_results results m))"
  by (induction results arbitrary: m) (auto simp: store_result_distinct)

lemma store_result_keys:
  "fst ` set (store_result result m) = snd ` set result \<union> fst ` set m"
proof (induction result arbitrary: m)
  case Nil
  show ?case by simp
next
  case (Cons a result)
  obtain ns ip where a: "a = (ns, ip)" by (cases a)
  have "fst ` set (AList.update ip ns m) = insert ip (fst ` set m)"
    using dom_update [of ip ns m] by (simp add: dom_map_of_conv_image_fst)
  then show ?case by (simp add: a Cons.IH)
qed

lemma drain_results_keys:
  "fst ` set (drain_results results m) = snd ` set (concat results) \<union> fst ` set m"
  by (induction results arbitrary: m) (auto simp: store_result_keys)

lemma mset_resolve_jobs:
  "0 < w \<Longrightarrow> mset (resolve_jobs picks nameservers w) = mset nameservers"
  by (simp add: resolve_jobs_def mset_pool_order)

lemma resolveNameservers_map_of:
  "map_of (resolveNameservers lookup picks nameservers w)
     = map_of (rev (map prod.swap (concat (worker lookup (resolve_jobs picks nameservers w)))))"
  by (simp add: resolveNameservers_def drain_results_map_of)

lemma resolveNameservers_distinct:
  "distinct (map fst (resolveNameservers lookup picks nameservers w))"
  by (simp add: resolveNameservers_def drain_results_distinct)

lemma last_writer:
  assumes "ip \<notin> snd ` set post"
  shows "map_of (rev (map prod.swap (pre @ (ns, ip) # post))) ip = Some ns"
proof -
  have "ip \<notin> fst ` set (rev (map prod.swap post))" using assms by force
  then have "map_of (rev (map prod.swap post)) ip = None"
    by (simp add: map_of_eq_None_iff)
  then show ?thesis by (simp add: map_of_append map_add_def)
qed

lemma sample_jobs:
  "resolve_jobs [3] [''ns1.example'', ''ns2.example''] 2 = [''ns2.example'', ''ns1.example'']"
  by code_simp

lemma sample_arrivals:
  "concat (worker sample_lookup (resolve_jobs [3] [''ns1.example'', ''ns2.example''] 2))
     = [(''ns2.example'', ''203.0.113.5''), (''ns1.example'', ''203.0.113.5'')]"
  by (simp add: sample_jobs worker_msg_def resolveNameserver_def sample_lookup_def)

text \<open>
  Claim C6. When several hostnames resolve to the same address, or a hostname stands twice
  in the input, \<open>resolveNameservers\<close> returns a map with one entry for each address, and the
  entry of an address holds the hostname of the last message that reached the \<open>results\<close>
  channel with this address: reading the map is reading the messages from the last one
  back. The function has no failing branch. With two workers and the second job finishing
  first, \<open>ns1.example\<close> is the last writer for the address it shares with \<open>ns2.example\<close>.
\<close>

theorem resolveNameservers_last_writer_wins:
  "distinct (map fst (resolveNameservers lookup picks nameservers w))
   \<and> map_of (resolveNameservers lookup picks nameservers w)
       = map_of (rev (map prod.swap (concat (worker lookup (resolve_jobs picks nameservers w)))))
   \<and> (\<forall>pre ns ip post.
         concat (worker lookup (resolve_jobs picks nameservers w)) = pre @ (ns, ip) # post
         \<and> ip \<notin> snd ` set post
         \<longrightarrow> map_of (resolveNameservers lookup picks nameservers w) ip = Some ns)"
proof (intro conjI allI impI)
  show "distinct (map fst (resolveNameservers lookup picks nameservers w))"
    by (rule resolveNameservers_distinct)
next
  show "map_of (resolveNameservers lookup picks nameservers w)
       = map_of (rev (map prod.swap (concat (worker lookup (resolve_jobs picks nameservers w)))))"
    by (rule resolveNameservers_map_of)
next
  fix pre ns ip post
  assume h: "concat (worker lookup (resolve_jobs picks nameservers w)) = pre @ (ns, ip) # post
         \<and> ip \<notin> snd ` set post"
  have "map_of (resolveNameservers lookup picks nameservers w) ip
      = map_of (rev (map prod.swap (pre @ (ns, ip) # post))) ip"
    using h by (simp only: resolveNameservers_map_of)
  also have "\<dots> = Some ns" by (rule last_writer) (use h in blast)
  finally show "map_of (resolveNameservers lookup picks nameservers w) ip = Some ns" .
qed

text \<open>
  Two hostnames at one address, two workers, the second job finishing first.
\<close>

theorem resolveNameservers_last_writer_wins_witness:
  "concat (worker sample_lookup (resolve_jobs [3] [''ns1.example'', ''ns2.example''] 2))
     = [(''ns2.example'', ''203.0.113.5'')] @ (''ns1.example'', ''203.0.113.5'') # []
   \<and> ''203.0.113.5'' \<notin> snd ` set ([] :: (string \<times> string) list)
   \<and> map_of (resolveNameservers sample_lookup [3] [''ns1.example'', ''ns2.example''] 2)
         ''203.0.113.5'' = Some ''ns1.example''"
proof -
  have h: "concat (worker sample_lookup (resolve_jobs [3] [''ns1.example'', ''ns2.example''] 2))
     = [(''ns2.example'', ''203.0.113.5'')] @ (''ns1.example'', ''203.0.113.5'') # []
   \<and> ''203.0.113.5'' \<notin> snd ` set ([] :: (string \<times> string) list)"
    by (simp add: sample_arrivals)
  from resolveNameservers_last_writer_wins
    [of sample_lookup "[3]" "[''ns1.example'', ''ns2.example'']" 2]
  have "map_of (resolveNameservers sample_lookup [3] [''ns1.example'', ''ns2.example''] 2)
         ''203.0.113.5'' = Some ''ns1.example''"
    using h by blast
  with h show ?thesis by blast
qed

section \<open>Properties of the query workers and of the dispatch loop\<close>

lemma strings_Split_not_Nil: "strings_Split s c \<noteq> []"
  by (induction s) (auto split: list.splits)

lemma length_strings_Split: "length (strings_Split s c) = Suc (count_list s c)"
proof (induction s)
  case Nil
  show ?case by simp
next
  case (Cons x s)
  obtain p ps where "strings_Split s c = p # ps"
    using strings_Split_not_Nil [of s c] by (cases "strings_Split s c") auto
  then show ?case using Cons by auto
qed



lemma count_list_0_iff: "count_list s c = 0 \<longleftrightarrow> c \<notin> set s"
  by (induction s) auto

lemma well_formed_job:
  "well_formed (d @ ''|'' @ ip) \<longleftrightarrow> CHR ''|'' \<notin> set d \<and> CHR ''|'' \<notin> set ip"
proof -
  have "count_list (d @ ''|'' @ ip) (CHR ''|'')
          = count_list d (CHR ''|'') + 1 + count_list ip (CHR ''|'')"
    by simp
  then show ?thesis
    by (simp add: well_formed_def length_strings_Split count_list_0_iff)
qed


lemma query_job_progress:
  "q_progress (query_job exch pf v query st)
     = q_progress st + (if well_formed query then 1 else 0)"
  by (simp add: query_job_def well_formed_def Let_def split: sum.splits)


lemma query_worker_progress:
  "q_progress (query_worker exch pf v qs st)
     = q_progress st + word_of_nat (length (filter well_formed qs))"
  by (induction qs arbitrary: st) (simp_all add: query_job_progress)


lemma filter_pool_order:
  "length (filter P (pool_order w picks xs)) = length (filter P xs)"
proof -
  have "mset (filter P (pool_order w picks xs)) = mset (filter P xs)"
    by (simp only: mset_filter mset_pool_order)
  then show ?thesis by (metis size_mset)
qed

lemma mset_map_range: "mset (map_range picks m) = mset (map fst m)"
  by (simp add: map_range_def mset_pool_order)

lemma set_map_range: "set (map_range picks m) = fst ` set m"
  by (simp add: map_range_def set_pool_order)

lemma dispatch_iff:
  "q \<in> set (dispatch picks m ds)
     \<longleftrightarrow> (\<exists>d ip. q = d @ ''|'' @ ip \<and> d \<in> set ds \<and> ip \<noteq> '''' \<and> ip \<in> fst ` set m)"
  by (auto simp: dispatch_def set_map_range)

lemma length_dispatch_keys:
  "length (concat (map (\<lambda>ip. if ip = '''' then [] else map (\<lambda>d. d @ ''|'' @ ip) ds) ks))
     = length (filter (\<lambda>ip. ip \<noteq> '''') ks) * length ds"
  by (induction ks) simp_all

lemma length_dispatch:
  "length (dispatch picks m ds) = length (filter (\<lambda>ip. ip \<noteq> '''') (map fst m)) * length ds"
  by (simp add: dispatch_def length_dispatch_keys map_range_def filter_pool_order)

lemma length_update_le: "length (AList.update k v al) \<le> Suc (length al)"
  by (induction al) auto

lemma length_store_result: "length (store_result result m) \<le> length m + length result"
proof (induction result arbitrary: m)
  case Nil
  show ?case by simp
next
  case (Cons a result)
  obtain ns ip where a: "a = (ns, ip)" by (cases a)
  have "length (store_result result (AList.update ip ns m))
          \<le> length (AList.update ip ns m) + length result"
    by (rule Cons.IH)
  also have "\<dots> \<le> Suc (length m) + length result"
    using length_update_le [of ip ns m] by simp
  finally show ?case by (simp add: a)
qed

lemma length_drain_results:
  "length (drain_results results m) \<le> length m + length (concat results)"
proof (induction results arbitrary: m)
  case Nil
  show ?case by simp
next
  case (Cons r results)
  have "length (drain_results results (store_result r m))
          \<le> length (store_result r m) + length (concat results)"
    by (rule Cons.IH)
  also have "\<dots> \<le> (length m + length r) + length (concat results)"
    using length_store_result [of r m] by simp
  finally show ?case by simp
qed

lemma length_concat_worker: "length (concat (worker lookup jobs)) = length jobs"
  by (induction jobs) (simp_all add: worker_msg_def split: sum.splits)

lemma length_resolve_jobs: "length (resolve_jobs picks nameservers w) \<le> length nameservers"
  by (simp add: resolve_jobs_def length_pool_order)

lemma length_resolveNameservers:
  "length (resolveNameservers lookup picks nameservers w) \<le> length nameservers"
proof -
  have "length (resolveNameservers lookup picks nameservers w)
          \<le> length (concat (worker lookup (resolve_jobs picks nameservers w)))"
    using length_drain_results [of "worker lookup (resolve_jobs picks nameservers w)" "[]"]
    by (simp add: resolveNameservers_def)
  then show ?thesis
    using length_resolve_jobs [of picks nameservers w] by (simp add: length_concat_worker)
qed

lemma resolveNameservers_keys:
  "fst ` set (resolveNameservers lookup picks nameservers w)
     = snd ` set (concat (worker lookup (resolve_jobs picks nameservers w)))"
  by (simp add: resolveNameservers_def drain_results_keys)

lemma in_concat_worker:
  "p \<in> set (concat (worker lookup jobs)) \<longleftrightarrow> (\<exists>ns\<in>set jobs. p \<in> set (worker_msg lookup ns))"
  by (induction jobs) auto

lemma set_resolve_jobs:
  "set (resolve_jobs picks nameservers w) = (if w \<le> 0 then {} else set nameservers)"
  by (simp add: resolve_jobs_def set_pool_order)

lemma resolved_key:
  assumes "ip \<in> fst ` set (resolveNameservers lookup picks nameservers w)" and "ip \<noteq> ''''"
  shows "\<exists>ns\<in>set nameservers. resolveNameserver lookup ns = Inr ip"
proof -
  from assms(1) have "ip \<in> snd ` set (concat (worker lookup (resolve_jobs picks nameservers w)))"
    by (simp only: resolveNameservers_keys)
  then obtain ns0 where "(ns0, ip) \<in> set (concat (worker lookup (resolve_jobs picks nameservers w)))"
    by force
  then obtain ns where ns: "ns \<in> set (resolve_jobs picks nameservers w)"
      and m: "(ns0, ip) \<in> set (worker_msg lookup ns)"
    unfolding in_concat_worker by blast
  from ns have "ns \<in> set nameservers"
    by (simp add: set_resolve_jobs split: if_splits)
  moreover from m assms(2) have "resolveNameserver lookup ns = Inr ip"
    by (auto simp: worker_msg_def split: sum.splits)
  ultimately show ?thesis by blast
qed


lemma worker_hostnames: "map (map fst) (worker lookup jobs) = map (\<lambda>ns. [ns]) jobs"
  by (induction jobs) (simp_all add: worker_msg_def split: sum.splits)

lemma resolveNameservers_keys_all:
  assumes "0 < w"
  shows "fst ` set (resolveNameservers lookup picks nameservers w)
           = snd ` (\<Union>ns\<in>set nameservers. set (worker_msg lookup ns))"
proof -
  have "set (concat (worker lookup (resolve_jobs picks nameservers w)))
          = (\<Union>ns\<in>set nameservers. set (worker_msg lookup ns))"
    using assms by (auto simp only: in_concat_worker set_resolve_jobs split: if_splits)
  then show ?thesis by (simp only: resolveNameservers_keys)
qed

lemma resolveNameserver_io_logged:
  "resolveNameserver_io (logged lookup) ns calls = (resolveNameserver lookup ns, calls @ [ns])"
  by (cases "lookup ns") (simp_all add: resolveNameserver_io_def resolveNameserver_def logged_def)

lemma worker_io_logged:
  "worker_io (logged lookup) jobs calls = (worker lookup jobs, calls @ jobs)"
proof (induction jobs arbitrary: calls)
  case Nil
  show ?case by simp
next
  case (Cons ns jobs)
  show ?case
    by (cases "resolveNameserver lookup ns")
       (simp_all add: resolveNameserver_io_logged Cons.IH worker_msg_def)
qed

lemma resolveNameservers_io_logged:
  "resolveNameservers_io (logged lookup) picks nameservers w calls
     = (resolveNameservers lookup picks nameservers w,
        calls @ resolve_jobs picks nameservers w)"
  by (simp add: resolveNameservers_io_def resolveNameservers_def worker_io_logged)

text \<open>
  Whatever the resolver does with the state of the network, a worker passes the state
  through one call for each job it receives, in their order.
\<close>

lemma worker_io_state:
  "snd (worker_io lookup jobs net) = foldl (\<lambda>net ns. snd (lookup ns net)) net jobs"
proof (induction jobs arbitrary: net)
  case Nil
  show ?case by simp
next
  case (Cons ns jobs)
  obtain r net' where l: "lookup ns net = (r, net')" by (cases "lookup ns net")
  obtain r' where r': "resolveNameserver_io lookup ns net = (r', net')"
    using l by (cases r) (simp_all add: resolveNameserver_io_def)
  obtain results net'' where w: "worker_io lookup jobs net' = (results, net'')"
    by (cases "worker_io lookup jobs net'")
  have "snd (worker_io lookup (ns # jobs) net) = net''"
    using r' w by (cases r') simp_all
  also have "\<dots> = snd (worker_io lookup jobs net')" using w by simp
  also have "\<dots> = foldl (\<lambda>net ns. snd (lookup ns net)) net' jobs" by (rule Cons.IH)
  finally show ?case using l by simp
qed

lemma worker_messages:
  "worker lookup jobs
     = map (\<lambda>ns. [(ns, case resolveNameserver lookup ns of Inl err \<Rightarrow> '''' | Inr ip \<Rightarrow> ip)]) jobs"
  by (induction jobs) (simp_all add: worker_msg_def split: sum.splits)

lemma resolveNameservers_keys_resolved:
  assumes "0 < w"
  shows "fst ` set (resolveNameservers lookup picks nameservers w)
           = (\<lambda>ns. case resolveNameserver lookup ns of Inl err \<Rightarrow> '''' | Inr ip \<Rightarrow> ip)
               ` set nameservers"
proof -
  have "snd ` (\<Union>ns\<in>set nameservers. set (worker_msg lookup ns))
          = (\<lambda>ns. case resolveNameserver lookup ns of Inl err \<Rightarrow> '''' | Inr ip \<Rightarrow> ip)
              ` set nameservers"
    by (force simp: worker_msg_def split: sum.splits)
  then show ?thesis
    using resolveNameservers_keys_all [OF assms, of lookup picks nameservers] by simp
qed

lemma resolveNameserver_cases:
  "(\<forall>err. lookup ns = Inl err
       \<longrightarrow> resolveNameserver lookup ns = Inl (''Failed to resolve nameserver: '' @ err))
   \<and> (lookup ns = Inr []
       \<longrightarrow> resolveNameserver lookup ns = Inl (''No IP addresses found for nameserver: '' @ ns))
   \<and> (\<forall>ip ips. lookup ns = Inr (ip # ips) \<longrightarrow> resolveNameserver lookup ns = Inr ip)"
  by (simp add: resolveNameserver_def)

lemma no_worker_no_lookup:
  "w \<le> 0 \<Longrightarrow> resolve_jobs picks nameservers w = []
     \<and> resolveNameservers lookup picks nameservers w = []"
  by (simp add: resolve_jobs_def resolveNameservers_def)

text \<open>
  Claim C7 says that every hostname of the input is attempted, for every input. With no
  worker the function looks nothing up: for a worker count of zero the resolver is never
  asked for \<open>ns1.example\<close>, the only hostname of the input, and the map returned is empty.
\<close>

theorem no_worker_attempts_nothing:
  "''ns1.example'' \<in> set [''ns1.example'']
   \<and> resolveNameservers_io (logged sample_lookup) [] [''ns1.example''] 0 [] = ([], [])
   \<and> resolveNameservers sample_lookup [] [''ns1.example''] 0 = []"
  by (simp add: resolveNameservers_io_logged no_worker_no_lookup)

text \<open>
  Claim C7, as the code has it. \<open>resolveNameservers\<close> has no failing branch: it returns a map
  for every input. \<open>resolveNameserver\<close> asks the resolver once, for the hostname it is given,
  and its result is decided by the answer: an error of the resolver and an empty list of
  addresses become errors, the first address of a list is returned. A worker calls it once
  for each job it receives, in their order, and sends one message for each job: the hostname
  with the address found, or with the empty address when the call returned an error, which
  goes no further. The calls of the resolver made by \<open>resolveNameservers\<close> are the jobs the
  workers received, and the map it returns is the one drained from their messages. For a
  positive worker count these jobs are the hostnames of the input, each as often as it
  stands there, so a hostname that stands twice is looked up twice; the keys of the map are
  then the addresses of these results. For a worker count of zero or less no hostname is
  looked up and the map is empty. An empty input gives no call and the empty map.
\<close>

theorem resolveNameservers_attempts_every_hostname:
  "resolveNameserver_io (logged lookup) ns calls = (resolveNameserver lookup ns, calls @ [ns])
   \<and> (\<forall>err. lookup ns = Inl err
         \<longrightarrow> resolveNameserver lookup ns = Inl (''Failed to resolve nameserver: '' @ err))
   \<and> (lookup ns = Inr []
         \<longrightarrow> resolveNameserver lookup ns = Inl (''No IP addresses found for nameserver: '' @ ns))
   \<and> (\<forall>ip ips. lookup ns = Inr (ip # ips) \<longrightarrow> resolveNameserver lookup ns = Inr ip)
   \<and> worker_io (logged lookup) jobs calls = (worker lookup jobs, calls @ jobs)
   \<and> worker lookup jobs
       = map (\<lambda>ns. [(ns, case resolveNameserver lookup ns of Inl err \<Rightarrow> '''' | Inr ip \<Rightarrow> ip)])
           jobs
   \<and> resolveNameservers_io (logged lookup) picks nameservers w calls
       = (resolveNameservers lookup picks nameservers w,
          calls @ resolve_jobs picks nameservers w)
   \<and> (0 < w \<longrightarrow> mset (resolve_jobs picks nameservers w) = mset nameservers)
   \<and> (0 < w \<longrightarrow> fst ` set (resolveNameservers lookup picks nameservers w)
                   = (\<lambda>ns. case resolveNameserver lookup ns of Inl err \<Rightarrow> '''' | Inr ip \<Rightarrow> ip)
                       ` set nameservers)
   \<and> (w \<le> 0 \<longrightarrow> resolve_jobs picks nameservers w = []
                   \<and> resolveNameservers lookup picks nameservers w = [])
   \<and> resolveNameservers_io (logged lookup) picks [] w calls = ([], calls)"
proof (intro conjI)
  show "resolveNameserver_io (logged lookup) ns calls
          = (resolveNameserver lookup ns, calls @ [ns])"
    by (rule resolveNameserver_io_logged)
next
  show "\<forall>err. lookup ns = Inl err
         \<longrightarrow> resolveNameserver lookup ns = Inl (''Failed to resolve nameserver: '' @ err)"
    using resolveNameserver_cases [of lookup ns] by blast
next
  show "lookup ns = Inr []
         \<longrightarrow> resolveNameserver lookup ns = Inl (''No IP addresses found for nameserver: '' @ ns)"
    using resolveNameserver_cases [of lookup ns] by blast
next
  show "\<forall>ip ips. lookup ns = Inr (ip # ips) \<longrightarrow> resolveNameserver lookup ns = Inr ip"
    using resolveNameserver_cases [of lookup ns] by blast
next
  show "worker_io (logged lookup) jobs calls = (worker lookup jobs, calls @ jobs)"
    by (rule worker_io_logged)
next
  show "worker lookup jobs
       = map (\<lambda>ns. [(ns, case resolveNameserver lookup ns of Inl err \<Rightarrow> '''' | Inr ip \<Rightarrow> ip)])
           jobs"
    by (rule worker_messages)
next
  show "resolveNameservers_io (logged lookup) picks nameservers w calls
       = (resolveNameservers lookup picks nameservers w,
          calls @ resolve_jobs picks nameservers w)"
    by (rule resolveNameservers_io_logged)
next
  show "0 < w \<longrightarrow> mset (resolve_jobs picks nameservers w) = mset nameservers"
    using mset_resolve_jobs by blast
next
  show "0 < w \<longrightarrow> fst ` set (resolveNameservers lookup picks nameservers w)
                   = (\<lambda>ns. case resolveNameserver lookup ns of Inl err \<Rightarrow> '''' | Inr ip \<Rightarrow> ip)
                       ` set nameservers"
    using resolveNameservers_keys_resolved by blast
next
  show "w \<le> 0 \<longrightarrow> resolve_jobs picks nameservers w = []
                   \<and> resolveNameservers lookup picks nameservers w = []"
    using no_worker_no_lookup by blast
next
  show "resolveNameservers_io (logged lookup) picks [] w calls = ([], calls)"
    by (simp add: resolveNameservers_io_logged resolve_jobs_def resolveNameservers_def)
qed


lemma sample_lookup_values:
  "sample_lookup ''nx.example'' = Inl ''no such host''"
  "sample_lookup ''empty.example'' = Inr []"
  "sample_lookup ''ns2.example'' = Inr (''203.0.113.5'' # [''203.0.113.6''])"
  by (simp_all add: sample_lookup_def)

lemma sample_logged_run:
  "resolveNameservers_io (logged sample_lookup) [3]
     [''ns1.example'', ''nx.example'', ''ns1.example''] 2 []
   = ([('''', ''nx.example''), (''203.0.113.5'', ''ns1.example'')],
      [''nx.example'', ''ns1.example'', ''ns1.example''])"
  by code_simp

text \<open>
  A hostname that stands twice in the input and one that does not resolve, with two workers
  and the second job finishing first: three calls of the resolver, two of them for the same
  hostname, and the failed hostname under the empty key. The three answers of the resolver,
  and a run with no worker.
\<close>

theorem resolveNameservers_attempts_every_hostname_witness:
  "sample_lookup ''nx.example'' = Inl ''no such host''
   \<and> resolveNameserver sample_lookup ''nx.example''
       = Inl ''Failed to resolve nameserver: no such host''
   \<and> sample_lookup ''empty.example'' = Inr []
   \<and> resolveNameserver sample_lookup ''empty.example''
       = Inl ''No IP addresses found for nameserver: empty.example''
   \<and> sample_lookup ''ns2.example'' = Inr (''203.0.113.5'' # [''203.0.113.6''])
   \<and> resolveNameserver sample_lookup ''ns2.example'' = Inr ''203.0.113.5''
   \<and> (0::int) < 2
   \<and> mset (resolve_jobs [3] [''ns1.example'', ''nx.example'', ''ns1.example''] 2)
       = mset [''ns1.example'', ''nx.example'', ''ns1.example'']
   \<and> resolveNameservers_io (logged sample_lookup) [3]
         [''ns1.example'', ''nx.example'', ''ns1.example''] 2 []
       = ([('''', ''nx.example''), (''203.0.113.5'', ''ns1.example'')],
          [''nx.example'', ''ns1.example'', ''ns1.example''])
   \<and> resolveNameservers sample_lookup [3] [''ns1.example'', ''nx.example'', ''ns1.example''] 2
       = [('''', ''nx.example''), (''203.0.113.5'', ''ns1.example'')]
   \<and> resolve_jobs [3] [''ns1.example'', ''nx.example'', ''ns1.example''] 2
       = [''nx.example'', ''ns1.example'', ''ns1.example'']
   \<and> (0::int) \<le> 0
   \<and> resolve_jobs [3] [''ns1.example'', ''nx.example'', ''ns1.example''] 0 = []
   \<and> resolveNameservers sample_lookup [3] [''ns1.example'', ''nx.example'', ''ns1.example''] 0
       = []"
proof -
  let ?nss = "[''ns1.example'', ''nx.example'', ''ns1.example'']"
  note nx = resolveNameservers_attempts_every_hostname
    [of sample_lookup "''nx.example''" "[]" ?nss "[3]" ?nss 2]
  note em = resolveNameservers_attempts_every_hostname
    [of sample_lookup "''empty.example''" "[]" ?nss "[3]" ?nss 0]
  note n2 = resolveNameservers_attempts_every_hostname
    [of sample_lookup "''ns2.example''" "[]" ?nss "[3]" ?nss 2]
  from nx sample_lookup_values(1)
  have a: "resolveNameserver sample_lookup ''nx.example''
       = Inl (''Failed to resolve nameserver: '' @ ''no such host'')"
    by blast
  from em sample_lookup_values(2)
  have b: "resolveNameserver sample_lookup ''empty.example''
       = Inl (''No IP addresses found for nameserver: '' @ ''empty.example'')"
    by blast
  from n2 sample_lookup_values(3)
  have c: "resolveNameserver sample_lookup ''ns2.example'' = Inr ''203.0.113.5''"
    by blast
  have pos: "(0::int) < 2" by simp
  from nx pos have d: "mset (resolve_jobs [3] ?nss 2) = mset ?nss" by blast
  from nx have "resolveNameservers_io (logged sample_lookup) [3] ?nss 2 []
       = (resolveNameservers sample_lookup [3] ?nss 2, [] @ resolve_jobs [3] ?nss 2)"
    by blast
  then have e: "resolveNameservers sample_lookup [3] ?nss 2
         = [('''', ''nx.example''), (''203.0.113.5'', ''ns1.example'')]
       \<and> resolve_jobs [3] ?nss 2 = [''nx.example'', ''ns1.example'', ''ns1.example'']"
    by (simp add: sample_logged_run)
  have zero: "(0::int) \<le> 0" by simp
  from em zero have f: "resolve_jobs [3] ?nss 0 = []
       \<and> resolveNameservers sample_lookup [3] ?nss 0 = []"
    by blast
  from a b c pos d e zero f show ?thesis
    by (simp add: sample_lookup_values sample_logged_run)
qed



















section \<open>Properties of the query engine, the reporter and the consumer\<close>

text \<open>
  Claim C4. \<open>queryDNS\<close> returns an answer exactly when the exchange succeeds and the
  response code is \<open>RcodeSuccess\<close>, and the answer is the response of the exchange. An
  error of the exchange is returned as it is, and a response with another code gives the
  error \<open>No answer from nameserver:\<close> followed by the nameserver; an error result carries no
  answer.
\<close>

theorem queryDNS_answer_iff_success:
  "((\<exists>r. queryDNS exch d nameserver = Inr r)
      \<longleftrightarrow> (\<exists>r. exch d nameserver = Inr r \<and> Rcode r = RcodeSuccess))
   \<and> (\<forall>r. queryDNS exch d nameserver = Inr r \<longrightarrow> exch d nameserver = Inr r)
   \<and> (\<forall>err. exch d nameserver = Inl err \<longrightarrow> queryDNS exch d nameserver = Inl err)
   \<and> (\<forall>r. exch d nameserver = Inr r \<and> Rcode r \<noteq> RcodeSuccess
         \<longrightarrow> queryDNS exch d nameserver = Inl (''No answer from nameserver: '' @ nameserver))"
proof (cases "exch d nameserver")
  case (Inl err)
  then show ?thesis by (simp add: queryDNS_def)
next
  case (Inr r)
  then show ?thesis by (cases "Rcode r = RcodeSuccess") (simp_all add: queryDNS_def)
qed

lemma sample_exchange_values:
  "sample_exchange ''a.test'' ''203.0.113.5:53''
     = Inr \<lparr>Rcode = 0, Answer = [RR_A ''198.51.100.9'']\<rparr>"
  "sample_exchange ''refused.test'' ''203.0.113.5:53'' = Inr \<lparr>Rcode = 5, Answer = []\<rparr>"
  "sample_exchange ''a.test'' ''203.0.113.7:53'' = Inl ''i/o timeout''"
  "sample_exchange ''empty.test'' ''203.0.113.5:53'' = Inr \<lparr>Rcode = 0, Answer = []\<rparr>"
  by (simp_all add: sample_exchange_def)

text \<open>
  The three outcomes in the sample network: an answer, a timeout, a refusal.
\<close>

theorem queryDNS_answer_iff_success_witness:
  "sample_exchange ''a.test'' ''203.0.113.5:53''
     = Inr \<lparr>Rcode = 0, Answer = [RR_A ''198.51.100.9'']\<rparr>
   \<and> queryDNS sample_exchange ''a.test'' ''203.0.113.5:53''
     = Inr \<lparr>Rcode = 0, Answer = [RR_A ''198.51.100.9'']\<rparr>
   \<and> sample_exchange ''a.test'' ''203.0.113.7:53'' = Inl ''i/o timeout''
   \<and> queryDNS sample_exchange ''a.test'' ''203.0.113.7:53'' = Inl ''i/o timeout''
   \<and> sample_exchange ''refused.test'' ''203.0.113.5:53'' = Inr \<lparr>Rcode = 5, Answer = []\<rparr>
   \<and> Rcode \<lparr>Rcode = 5, Answer = []\<rparr> \<noteq> RcodeSuccess
   \<and> queryDNS sample_exchange ''refused.test'' ''203.0.113.5:53''
     = Inl ''No answer from nameserver: 203.0.113.5:53''"
proof -
  have ok: "\<exists>r. sample_exchange ''a.test'' ''203.0.113.5:53'' = Inr r \<and> Rcode r = RcodeSuccess"
    by (simp add: sample_exchange_values RcodeSuccess_def)
  from queryDNS_answer_iff_success [of sample_exchange "''a.test''" "''203.0.113.5:53''"] ok
  obtain r where r: "queryDNS sample_exchange ''a.test'' ''203.0.113.5:53'' = Inr r"
    and "sample_exchange ''a.test'' ''203.0.113.5:53'' = Inr r"
    by blast
  then have a: "queryDNS sample_exchange ''a.test'' ''203.0.113.5:53''
     = Inr \<lparr>Rcode = 0, Answer = [RR_A ''198.51.100.9'']\<rparr>"
    by (simp add: sample_exchange_values)
  have b: "queryDNS sample_exchange ''a.test'' ''203.0.113.7:53'' = Inl ''i/o timeout''"
    using queryDNS_answer_iff_success [of sample_exchange "''a.test''" "''203.0.113.7:53''"]
      sample_exchange_values(3) by blast
  have ne: "Rcode \<lparr>Rcode = 5, Answer = []\<rparr> \<noteq> RcodeSuccess" by (simp add: RcodeSuccess_def)
  have c: "queryDNS sample_exchange ''refused.test'' ''203.0.113.5:53''
     = Inl (''No answer from nameserver: '' @ ''203.0.113.5:53'')"
    using queryDNS_answer_iff_success [of sample_exchange "''refused.test''" "''203.0.113.5:53''"]
      sample_exchange_values(2) ne by blast
  from a b c ne show ?thesis by (simp add: sample_exchange_values)
qed

text \<open>
  Claim C5 says that with a stored total of zero the reporter reports 100 percent or prints
  nothing. Both counters are zero until main stores them; a line read on standard input
  then makes the reporter print the line with the counters 0 and 0 and the quotient 0/0,
  which is not a number: the line is printed, and its percentage is no quotient at all.
\<close>

theorem reporter_zero_total_unguarded:
  "reporter False 0 0 = [Progress 0 0 NaN]
   \<and> \<not> (reporter False 0 0 = []
          \<or> (\<exists>v1 v2 x y. reporter False 0 0 = [Progress v1 v2 (Quotient x y)]))"
  by (simp add: reporter_def float_div_def)

text \<open>
  Claim C5, as the code has it. The percentage is computed with no test of the divisor. With
  a stored total of zero the reporter still prints its line, and the percentage is the
  IEEE 754 quotient by zero: not a number when the completed counter is zero too, an
  infinity with the sign of the counter otherwise. Nothing panics: the division is one of
  floating-point numbers.
\<close>

theorem reporter_zero_total:
  "reporter False p 0
     = [Progress (sint p) 0
          (if sint p = 0 then NaN else if 0 < sint p then PosInf else NegInf)]"
  by (simp add: reporter_def float_div_def)

lemma consoles_append: "consoles (xs @ ys) = consoles xs @ consoles ys"
  by (induction xs rule: consoles.induct) simp_all

lemma file_writes_append: "file_writes (xs @ ys) = file_writes xs @ file_writes ys"
  by (induction xs rule: file_writes.induct) simp_all

lemma consoles_emit: "consoles (emit pf fh c s) = [(c, pf s)]"
  by (simp add: emit_def)

lemma file_writes_emit: "file_writes (emit pf fh c s) = (if fh then [pf s] else [])"
  by (simp add: emit_def)

lemma consoles_show_record:
  "consoles (show_record pf fh n ip d rr)
     = [(case rr of
           RR_A a \<Rightarrow> (FgGreen, pf (sprintf_arrow n ip d a))
         | RR_CNAME target \<Rightarrow> (FgGreen, pf (sprintf_arrow n ip d target))
         | RR_AAAA aaaa \<Rightarrow> (FgGreen, pf (sprintf_arrow n ip d aaaa))
         | RR_Other ty rendering \<Rightarrow> (FgYellow, pf (sprintf_plain n ip d ty rendering)))]"
  by (cases rr) (simp_all add: consoles_emit)

lemma consoles_concat_records:
  "consoles (concat (map (show_record pf fh n ip d) rrs))
     = concat (map (\<lambda>rr. consoles (show_record pf fh n ip d rr)) rrs)"
  by (induction rrs) (simp_all add: consoles_append)

lemma consoles_show_result:
  "consoles (show_result pf fh m r)
     = map (\<lambda>rr. case rr of
           RR_A a \<Rightarrow> (FgGreen, pf (sprintf_arrow (map_index m (wa_nsIP r)) (wa_nsIP r) (wa_domain r) a))
         | RR_CNAME target \<Rightarrow>
             (FgGreen, pf (sprintf_arrow (map_index m (wa_nsIP r)) (wa_nsIP r) (wa_domain r) target))
         | RR_AAAA aaaa \<Rightarrow>
             (FgGreen, pf (sprintf_arrow (map_index m (wa_nsIP r)) (wa_nsIP r) (wa_domain r) aaaa))
         | RR_Other ty rendering \<Rightarrow>
             (FgYellow, pf (sprintf_plain (map_index m (wa_nsIP r)) (wa_nsIP r) (wa_domain r) ty rendering)))
        (Answer (wa_answer r))"
proof -
  have "concat (map (\<lambda>rr. consoles (show_record pf fh n ip d rr)) rrs)
      = map (\<lambda>rr. case rr of
           RR_A a \<Rightarrow> (FgGreen, pf (sprintf_arrow n ip d a))
         | RR_CNAME target \<Rightarrow> (FgGreen, pf (sprintf_arrow n ip d target))
         | RR_AAAA aaaa \<Rightarrow> (FgGreen, pf (sprintf_arrow n ip d aaaa))
         | RR_Other ty rendering \<Rightarrow> (FgYellow, pf (sprintf_plain n ip d ty rendering))) rrs"
    for n ip d rrs
    by (induction rrs) (simp_all add: consoles_show_record)
  then show ?thesis
    by (simp add: show_result_def Let_def consoles_concat_records)
qed

lemma consoles_show_result_classified:
  "consoles (show_result pf fh m r)
     = map (\<lambda>rr. case spec_classify rr of
           Class_A a \<Rightarrow>
             (FgGreen, pf (sprintf_arrow (map_index m (wa_nsIP r)) (wa_nsIP r) (wa_domain r) a))
         | Class_AAAA aaaa \<Rightarrow>
             (FgGreen, pf (sprintf_arrow (map_index m (wa_nsIP r)) (wa_nsIP r) (wa_domain r) aaaa))
         | Class_CNAME target \<Rightarrow>
             (FgGreen, pf (sprintf_arrow (map_index m (wa_nsIP r)) (wa_nsIP r) (wa_domain r) target))
         | Class_Other rendering \<Rightarrow>
             (FgYellow,
              pf (sprintf_plain (map_index m (wa_nsIP r)) (wa_nsIP r) (wa_domain r)
                    (go_type rr) rendering)))
        (Answer (wa_answer r))"
proof -
  have "(case rr of
           RR_A a \<Rightarrow> (FgGreen, pf (sprintf_arrow n ip d a))
         | RR_CNAME target \<Rightarrow> (FgGreen, pf (sprintf_arrow n ip d target))
         | RR_AAAA aaaa \<Rightarrow> (FgGreen, pf (sprintf_arrow n ip d aaaa))
         | RR_Other ty rendering \<Rightarrow> (FgYellow, pf (sprintf_plain n ip d ty rendering)))
      = (case spec_classify rr of
           Class_A a \<Rightarrow> (FgGreen, pf (sprintf_arrow n ip d a))
         | Class_AAAA aaaa \<Rightarrow> (FgGreen, pf (sprintf_arrow n ip d aaaa))
         | Class_CNAME target \<Rightarrow> (FgGreen, pf (sprintf_arrow n ip d target))
         | Class_Other rendering \<Rightarrow>
             (FgYellow, pf (sprintf_plain n ip d (go_type rr) rendering)))"
    for n ip d rr
    by (cases rr) simp_all
  then show ?thesis by (simp only: consoles_show_result)
qed

lemma consoles_consumer:
  "consoles (consumer pf fh m rs) = concat (map (\<lambda>r. consoles (show_result pf fh m r)) rs)"
  unfolding consumer_def by (induction rs) (simp_all add: consoles_append)

lemma colour_of_class:
  "fst (case spec_classify rr of
           Class_A a \<Rightarrow> (FgGreen, f1 a)
         | Class_AAAA aaaa \<Rightarrow> (FgGreen, f2 aaaa)
         | Class_CNAME target \<Rightarrow> (FgGreen, f3 target)
         | Class_Other rendering \<Rightarrow> (FgYellow, f4 rendering))
     = (case spec_classify rr of Class_Other rendering \<Rightarrow> FgYellow | _ \<Rightarrow> FgGreen)"
  by (cases rr) simp_all

lemma query_phase_shown:
  "fatal_exit (query_phase e s cfg ev nameservers domainsList) = None \<Longrightarrow>
   shown (query_phase e s cfg ev nameservers domainsList)
     = consumer (fmtNoArgs e) (cfg_output cfg \<noteq> '''')
         (mapped (query_phase e s cfg ev nameservers domainsList))
         (q_answers (final (query_phase e s cfg ev nameservers domainsList)))"
  by (simp add: query_phase_def Let_def split: option.splits if_splits)

text \<open>
  Claim C3 says that the output keeps the tagging of the records. The three branches for
  address, canonical-name and quad-A records build their line with one format, and the line
  does not name the branch. A quad-A record whose address is the IPv4-mapped form of
  198.51.100.9 renders it as \<open>198.51.100.9\<close> (\<open>String()\<close> of \<open>net.IP\<close> writes such an address
  in dotted form), as the address record for 198.51.100.9 does: the two responses, one
  classified \<open>A\<close> and one classified \<open>AAAA\<close>, give the same writes.
\<close>

theorem output_does_not_tell_A_from_AAAA:
  "spec_classify (RR_A ''198.51.100.9'') \<noteq> spec_classify (RR_AAAA ''198.51.100.9'')
   \<and> consumer (fmtNoArgs sample_env) True [(''203.0.113.5'', ''ns1.example'')]
         [\<lparr>wa_nsIP = ''203.0.113.5'', wa_domain = ''a.test'',
           wa_answer = \<lparr>Rcode = 0, Answer = [RR_A ''198.51.100.9'']\<rparr>\<rparr>]
     = consumer (fmtNoArgs sample_env) True [(''203.0.113.5'', ''ns1.example'')]
         [\<lparr>wa_nsIP = ''203.0.113.5'', wa_domain = ''a.test'',
           wa_answer = \<lparr>Rcode = 0, Answer = [RR_AAAA ''198.51.100.9'']\<rparr>\<rparr>]
   \<and> consumer (fmtNoArgs sample_env) True [(''203.0.113.5'', ''ns1.example'')]
         [\<lparr>wa_nsIP = ''203.0.113.5'', wa_domain = ''a.test'',
           wa_answer = \<lparr>Rcode = 0, Answer = [RR_AAAA ''198.51.100.9'']\<rparr>\<rparr>]
     = [FileWrite ''[ns1.example (203.0.113.5)] a.test => 198.51.100.9\<newline>'',
        Console FgGreen ''[ns1.example (203.0.113.5)] a.test => 198.51.100.9\<newline>'']"
  by (simp add: consumer_def show_result_def map_index_def emit_def sprintf_arrow_def
        sample_env_def)

text \<open>
  Claim C3, as the code has it. The code keeps no classified answer: the consumer takes the
  answers in the order they were sent and, for each, the records of the answer section in
  their order, and writes one console line for each record at once. What it writes for a
  record is decided by the classification of the record: for a record classified \<open>A\<close>,
  \<open>AAAA\<close> or \<open>CNAME\<close> the green line built from the stored address or target name, the same
  form for the three; for a record classified \<open>Other\<close> the yellow text built from the name of
  its Go type and the stored rendering. So the console output keeps the order of the
  response and tells a classified record from an unclassified one, and does not tell the
  three classified kinds apart: an address record, a quad-A record and a canonical-name
  record that carry the same text give the same writes. What the query phase of a run that
  did not end in a fatal error has written is what the consumer writes for the answers the
  workers sent.
\<close>

theorem records_shown_in_response_order:
  "consoles (consumer pf fh m rs)
     = concat (map (\<lambda>r. map (\<lambda>rr. case spec_classify rr of
           Class_A a \<Rightarrow>
             (FgGreen, pf (sprintf_arrow (map_index m (wa_nsIP r)) (wa_nsIP r) (wa_domain r) a))
         | Class_AAAA aaaa \<Rightarrow>
             (FgGreen, pf (sprintf_arrow (map_index m (wa_nsIP r)) (wa_nsIP r) (wa_domain r) aaaa))
         | Class_CNAME target \<Rightarrow>
             (FgGreen, pf (sprintf_arrow (map_index m (wa_nsIP r)) (wa_nsIP r) (wa_domain r) target))
         | Class_Other rendering \<Rightarrow>
             (FgYellow,
              pf (sprintf_plain (map_index m (wa_nsIP r)) (wa_nsIP r) (wa_domain r)
                    (go_type rr) rendering)))
        (Answer (wa_answer r))) rs)
   \<and> map fst (consoles (consumer pf fh m rs))
     = concat (map (\<lambda>r. map (\<lambda>rr. case spec_classify rr of
                                      Class_Other rendering \<Rightarrow> FgYellow
                                    | _ \<Rightarrow> FgGreen)
                            (Answer (wa_answer r))) rs)
   \<and> (fatal_exit (query_phase e s cfg ev nameservers domainsList) = None
      \<longrightarrow> shown (query_phase e s cfg ev nameservers domainsList)
          = consumer (fmtNoArgs e) (cfg_output cfg \<noteq> '''')
              (mapped (query_phase e s cfg ev nameservers domainsList))
              (q_answers (final (query_phase e s cfg ev nameservers domainsList))))
   \<and> show_record pf fh n ip d (RR_A v) = show_record pf fh n ip d (RR_AAAA v)
   \<and> show_record pf fh n ip d (RR_A v) = show_record pf fh n ip d (RR_CNAME v)"
proof (intro conjI impI)
  show lines: "consoles (consumer pf fh m rs)
     = concat (map (\<lambda>r. map (\<lambda>rr. case spec_classify rr of
           Class_A a \<Rightarrow>
             (FgGreen, pf (sprintf_arrow (map_index m (wa_nsIP r)) (wa_nsIP r) (wa_domain r) a))
         | Class_AAAA aaaa \<Rightarrow>
             (FgGreen, pf (sprintf_arrow (map_index m (wa_nsIP r)) (wa_nsIP r) (wa_domain r) aaaa))
         | Class_CNAME target \<Rightarrow>
             (FgGreen, pf (sprintf_arrow (map_index m (wa_nsIP r)) (wa_nsIP r) (wa_domain r) target))
         | Class_Other rendering \<Rightarrow>
             (FgYellow,
              pf (sprintf_plain (map_index m (wa_nsIP r)) (wa_nsIP r) (wa_domain r)
                    (go_type rr) rendering)))
        (Answer (wa_answer r))) rs)"
    by (simp only: consoles_consumer consoles_show_result_classified)
  show "map fst (consoles (consumer pf fh m rs))
     = concat (map (\<lambda>r. map (\<lambda>rr. case spec_classify rr of
                                      Class_Other rendering \<Rightarrow> FgYellow
                                    | _ \<Rightarrow> FgGreen)
                            (Answer (wa_answer r))) rs)"
    unfolding lines by (simp add: map_concat comp_def colour_of_class)
next
  assume "fatal_exit (query_phase e s cfg ev nameservers domainsList) = None"
  then show "shown (query_phase e s cfg ev nameservers domainsList)
          = consumer (fmtNoArgs e) (cfg_output cfg \<noteq> '''')
              (mapped (query_phase e s cfg ev nameservers domainsList))
              (q_answers (final (query_phase e s cfg ev nameservers domainsList)))"
    by (rule query_phase_shown)
next
  show "show_record pf fh n ip d (RR_A v) = show_record pf fh n ip d (RR_AAAA v)"
    by simp
next
  show "show_record pf fh n ip d (RR_A v) = show_record pf fh n ip d (RR_CNAME v)"
    by simp
qed

lemma sample_chain_run:
  "fatal_exit (query_phase sample_env sample_sched sample_config []
                 [''ns1.example''] [''www.a.test'']) = None"
  "shown (query_phase sample_env sample_sched sample_config []
            [''ns1.example''] [''www.a.test''])
     = [FileWrite ''[ns1.example (203.0.113.5)] www.a.test => a.test.\<newline>'',
        Console FgGreen ''[ns1.example (203.0.113.5)] www.a.test => a.test.\<newline>'',
        FileWrite ''[ns1.example (203.0.113.5)] www.a.test => 198.51.100.9\<newline>'',
        Console FgGreen ''[ns1.example (203.0.113.5)] www.a.test => 198.51.100.9\<newline>'']"
  by code_simp+

text \<open>
  A run of the sample network for a domain answered by a canonical name followed by an
  address: two green lines, the target first.
\<close>

theorem records_shown_in_response_order_witness:
  "fatal_exit (query_phase sample_env sample_sched sample_config []
                 [''ns1.example''] [''www.a.test'']) = None
   \<and> consumer (fmtNoArgs sample_env) (cfg_output sample_config \<noteq> '''')
         (mapped (query_phase sample_env sample_sched sample_config []
                    [''ns1.example''] [''www.a.test'']))
         (q_answers (final (query_phase sample_env sample_sched sample_config []
                              [''ns1.example''] [''www.a.test''])))
     = [FileWrite ''[ns1.example (203.0.113.5)] www.a.test => a.test.\<newline>'',
        Console FgGreen ''[ns1.example (203.0.113.5)] www.a.test => a.test.\<newline>'',
        FileWrite ''[ns1.example (203.0.113.5)] www.a.test => 198.51.100.9\<newline>'',
        Console FgGreen ''[ns1.example (203.0.113.5)] www.a.test => 198.51.100.9\<newline>'']
   \<and> map fst (consoles (consumer (fmtNoArgs sample_env) (cfg_output sample_config \<noteq> '''')
         (mapped (query_phase sample_env sample_sched sample_config []
                    [''ns1.example''] [''www.a.test'']))
         (q_answers (final (query_phase sample_env sample_sched sample_config []
                              [''ns1.example''] [''www.a.test''])))))
     = [FgGreen, FgGreen]"
proof -
  note inst = records_shown_in_response_order
    [where e = sample_env and s = sample_sched and cfg = sample_config
       and ev = "[]" and nameservers = "[''ns1.example'']"
       and domainsList = "[''www.a.test'']"]
  from inst sample_chain_run(1)
  have "shown (query_phase sample_env sample_sched sample_config []
                 [''ns1.example''] [''www.a.test''])
      = consumer (fmtNoArgs sample_env) (cfg_output sample_config \<noteq> '''')
         (mapped (query_phase sample_env sample_sched sample_config []
                    [''ns1.example''] [''www.a.test'']))
         (q_answers (final (query_phase sample_env sample_sched sample_config []
                              [''ns1.example''] [''www.a.test''])))"
    by blast
  then have c: "consumer (fmtNoArgs sample_env) (cfg_output sample_config \<noteq> '''')
         (mapped (query_phase sample_env sample_sched sample_config []
                    [''ns1.example''] [''www.a.test'']))
         (q_answers (final (query_phase sample_env sample_sched sample_config []
                              [''ns1.example''] [''www.a.test''])))
     = [FileWrite ''[ns1.example (203.0.113.5)] www.a.test => a.test.\<newline>'',
        Console FgGreen ''[ns1.example (203.0.113.5)] www.a.test => a.test.\<newline>'',
        FileWrite ''[ns1.example (203.0.113.5)] www.a.test => 198.51.100.9\<newline>'',
        Console FgGreen ''[ns1.example (203.0.113.5)] www.a.test => 198.51.100.9\<newline>'']"
    by (simp only: sample_chain_run(2))
  then have "map fst (consoles (consumer (fmtNoArgs sample_env) (cfg_output sample_config \<noteq> '''')
         (mapped (query_phase sample_env sample_sched sample_config []
                    [''ns1.example''] [''www.a.test'']))
         (q_answers (final (query_phase sample_env sample_sched sample_config []
                              [''ns1.example''] [''www.a.test''])))))
     = [FgGreen, FgGreen]"
    by simp
  with c sample_chain_run(1) show ?thesis by blast
qed

text \<open>
  Claim C8 at a response whose answer section holds a record of another type, here a
  \<open>DNAME\<close> record, with an output file configured. The string the consumer builds, and hands
  as a format to the file and to the console, is the prefix with the nameserver and the
  domain, a newline, and the \<open>%!(EXTRA type=value)\<close> text of \<open>fmt\<close> around the rendering:
  the format of this branch lacks the verb for its fourth operand.
\<close>

theorem other_record_line_is_fmt_diagnostic:
  "show_result pf True [(''203.0.113.5'', ''ns1.example'')]
     \<lparr>wa_nsIP = ''203.0.113.5'', wa_domain = ''old.a.test'',
      wa_answer = \<lparr>Rcode = 0, Answer = [RR_Other ''*dns.DNAME'' rendering]\<rparr>\<rparr>
   = [FileWrite (pf (''[ns1.example (203.0.113.5)] old.a.test\<newline>%!(EXTRA *dns.DNAME=''
                     @ rendering @ '')'')),
      Console FgYellow (pf (''[ns1.example (203.0.113.5)] old.a.test\<newline>%!(EXTRA *dns.DNAME=''
                     @ rendering @ '')''))]"
  by (simp add: show_result_def map_index_def emit_def sprintf_plain_def)

lemma file_writes_show_record:
  "file_writes (show_record pf fh n ip d rr)
     = (if fh then map snd (consoles (show_record pf fh n ip d rr)) else [])"
  by (cases rr) (simp_all add: emit_def)

lemma file_duplicates_console:
  "file_writes (show_result pf fh m r)
     = (if fh then map snd (consoles (show_result pf fh m r)) else [])"
proof -
  have "file_writes (concat (map (show_record pf b n ip d) rrs))
      = (if b then map snd (consoles (concat (map (show_record pf b n ip d) rrs))) else [])"
    for b n ip d rrs
    by (induction rrs)
       (simp_all add: file_writes_append consoles_append file_writes_show_record)
  then show ?thesis by (simp add: show_result_def Let_def)
qed



section \<open>Properties of a run\<close>

lemma main_invalid_workers:
  "cfg_workers cfg \<le> 0 \<Longrightarrow>
     main e s cfg
       = fatalf (if \<not> cfg_quiet cfg then [Banner, Version] else [])
           (InvalidWorkers (cfg_workers cfg))"
  by (simp add: main_def Let_def)

text \<open>
  Claim C9, as the code has it. With a worker count of zero or less the run ends in
  \<open>log.Fatalf\<close> with the message naming the count. Before that the main goroutine has
  opened no list file and no output file, no hostname was looked up, no job was sent, no
  exchange was made with a nameserver and the consumer wrote nothing; the only output before
  the fatal message is the banner and the version line, printed unless the quiet flag is
  set.
\<close>

theorem invalid_workers_exit_before_files_and_network:
  assumes "cfg_workers cfg \<le> 0"
  shows "fatal_exit (main e s cfg) = Some (InvalidWorkers (cfg_workers cfg))
       \<and> events (main e s cfg) = (if cfg_quiet cfg then [] else [Banner, Version])
       \<and> (\<forall>filename. OsOpen filename \<notin> set (events (main e s cfg))
                     \<and> OsOpenFile filename \<notin> set (events (main e s cfg)))
       \<and> lookups (main e s cfg) = []
       \<and> queries (main e s cfg) = []
       \<and> q_exchanges (final (main e s cfg)) = []
       \<and> shown (main e s cfg) = []"
  using assms by (simp add: main_invalid_workers fatalf_def qstate0_def)

text \<open>
  Claim C9 says that a worker count of zero or less ends the program before any input or
  output. The banner and the version are printed before the count is tested: with the
  sample flags (not quiet) and zero workers the run has written both when it exits.
\<close>

theorem banner_printed_before_worker_check:
  "cfg_workers (sample_config\<lparr>cfg_workers := 0\<rparr>) \<le> 0
   \<and> fatal_exit (main sample_env sample_sched (sample_config\<lparr>cfg_workers := 0\<rparr>))
       = Some (InvalidWorkers 0)
   \<and> events (main sample_env sample_sched (sample_config\<lparr>cfg_workers := 0\<rparr>))
       = [Banner, Version]"
  by (simp add: main_invalid_workers fatalf_def sample_config_def)

text \<open>
  A negative worker count with the quiet flag: the run ends with no event at all.
\<close>

theorem invalid_workers_exit_before_files_and_network_witness:
  "cfg_workers (sample_config\<lparr>cfg_workers := - 3, cfg_quiet := True\<rparr>) \<le> 0
   \<and> fatal_exit (main sample_env sample_sched
                    (sample_config\<lparr>cfg_workers := - 3, cfg_quiet := True\<rparr>))
       = Some (InvalidWorkers (- 3))
   \<and> events (main sample_env sample_sched
                (sample_config\<lparr>cfg_workers := - 3, cfg_quiet := True\<rparr>)) = []
   \<and> lookups (main sample_env sample_sched
                 (sample_config\<lparr>cfg_workers := - 3, cfg_quiet := True\<rparr>)) = []
   \<and> queries (main sample_env sample_sched
                 (sample_config\<lparr>cfg_workers := - 3, cfg_quiet := True\<rparr>)) = []"
proof -
  have h: "cfg_workers (sample_config\<lparr>cfg_workers := - 3, cfg_quiet := True\<rparr>) \<le> 0"
    by simp
  from invalid_workers_exit_before_files_and_network [OF h, of sample_env sample_sched] h
  show ?thesis by simp
qed

lemma main_lists_read:
  assumes "0 < cfg_workers cfg"
      and "read_lists (readLines e) (provider_lists cfg) [] = (ev1, Inr nameservers)"
      and "read_domains (readLines e) cfg = (ev2, Inr domainsList)"
  shows "main e s cfg
           = query_phase e s cfg
               ((if \<not> cfg_quiet cfg then [Banner, Version] else []) @ ev1 @ ev2)
               nameservers domainsList"
  using assms by (simp add: main_def Let_def)

lemma query_phase_total:
  "total_stored (query_phase e s cfg ev nameservers domainsList)
     = word_of_nat (length domainsList * length nameservers)"
  by (simp add: query_phase_def Let_def split: option.splits)

lemma query_phase_mapped:
  "mapped (query_phase e s cfg ev nameservers domainsList)
     = resolveNameservers (netLookupIP e) (resolve_picks s) nameservers (cfg_workers cfg)"
  by (simp add: query_phase_def Let_def split: option.splits)

lemma query_phase_lookups:
  "lookups (query_phase e s cfg ev nameservers domainsList)
     = resolve_jobs (resolve_picks s) nameservers (cfg_workers cfg)"
  by (simp add: query_phase_def Let_def split: option.splits)

lemma query_phase_queries:
  "fatal_exit (query_phase e s cfg ev nameservers domainsList) = None \<Longrightarrow>
   queries (query_phase e s cfg ev nameservers domainsList)
     = dispatch (range_picks s)
         (resolveNameservers (netLookupIP e) (resolve_picks s) nameservers (cfg_workers cfg))
         domainsList"
  by (simp add: query_phase_def Let_def split: option.splits if_splits)

lemma query_phase_final:
  "fatal_exit (query_phase e s cfg ev nameservers domainsList) = None \<Longrightarrow>
   final (query_phase e s cfg ev nameservers domainsList)
     = query_worker (dnsExchange e) (fmtNoArgs e) (cfg_verbose cfg)
         (pool_order (nat (cfg_workers cfg)) (query_picks s)
            (queries (query_phase e s cfg ev nameservers domainsList)))
         qstate0"
  by (simp add: query_phase_def Let_def split: option.splits if_splits)

lemma query_phase_progress:
  assumes "fatal_exit (query_phase e s cfg ev nameservers domainsList) = None"
  shows "q_progress (final (query_phase e s cfg ev nameservers domainsList))
     = word_of_nat (length (filter well_formed
                              (queries (query_phase e s cfg ev nameservers domainsList))))"
  by (simp add: query_phase_final [OF assms] query_worker_progress filter_pool_order qstate0_def)

lemma query_phase_length_queries:
  assumes "fatal_exit (query_phase e s cfg ev nameservers domainsList) = None"
  shows "length (queries (query_phase e s cfg ev nameservers domainsList))
     = length (filter (\<lambda>ip. ip \<noteq> '''')
                 (map fst (mapped (query_phase e s cfg ev nameservers domainsList))))
       * length domainsList"
  by (simp add: query_phase_queries [OF assms] query_phase_mapped length_dispatch)

lemma query_phase_queries_le:
  assumes "fatal_exit (query_phase e s cfg ev nameservers domainsList) = None"
  shows "length (queries (query_phase e s cfg ev nameservers domainsList))
           \<le> length domainsList * length nameservers"
proof -
  let ?m = "mapped (query_phase e s cfg ev nameservers domainsList)"
  have "length (filter (\<lambda>ip. ip \<noteq> '''') (map fst ?m)) \<le> length ?m"
    using length_filter_le [of "\<lambda>ip. ip \<noteq> ''''" "map fst ?m"] by simp
  also have "\<dots> \<le> length nameservers"
    by (simp add: query_phase_mapped length_resolveNameservers)
  finally have "length (filter (\<lambda>ip. ip \<noteq> '''') (map fst ?m)) * length domainsList
                  \<le> length nameservers * length domainsList"
    by (rule mult_le_mono1)
  then show ?thesis
    by (simp add: query_phase_length_queries [OF assms] mult.commute)
qed

lemma all_resolved_keys:
  assumes w: "0 < w"
      and ok: "\<forall>ns\<in>set nameservers. \<exists>ip. resolveNameserver lookup ns = Inr ip \<and> ip \<noteq> ''''"
      and dist: "distinct nameservers"
      and inj: "inj_on (resolveNameserver lookup) (set nameservers)"
  shows "length (filter (\<lambda>ip. ip \<noteq> '''')
           (map fst (resolveNameservers lookup picks nameservers w))) = length nameservers"
proof -
  let ?m = "resolveNameservers lookup picks nameservers w"
  define f where "f ns = (case resolveNameserver lookup ns of Inl err \<Rightarrow> '''' | Inr ip \<Rightarrow> ip)" for ns
  have msg: "worker_msg lookup ns = [(ns, f ns)]" for ns
    by (simp add: worker_msg_def f_def split: sum.splits)
  have "snd ` (\<Union>ns\<in>set nameservers. set (worker_msg lookup ns)) = f ` set nameservers"
    by (force simp: msg)
  then have keys: "fst ` set ?m = f ` set nameservers"
    using resolveNameservers_keys_all [OF w, of lookup picks nameservers] by simp
  have nonempty: "\<forall>k\<in>set (map fst ?m). k \<noteq> ''''"
  proof
    fix k
    assume "k \<in> set (map fst ?m)"
    then have "k \<in> f ` set nameservers" using keys by simp
    then obtain ns where "ns \<in> set nameservers" "k = f ns" by blast
    then show "k \<noteq> ''''" using ok by (auto simp: f_def)
  qed
  have "inj_on f (set nameservers)"
  proof (rule inj_onI)
    fix a b
    assume a: "a \<in> set nameservers" and b: "b \<in> set nameservers" and eq: "f a = f b"
    from ok a obtain ia where ia: "resolveNameserver lookup a = Inr ia" by blast
    from ok b obtain ib where ib: "resolveNameserver lookup b = Inr ib" by blast
    from eq ia ib have "resolveNameserver lookup a = resolveNameserver lookup b"
      by (simp add: f_def)
    with inj a b show "a = b" by (simp add: inj_on_def)
  qed
  then have "card (f ` set nameservers) = card (set nameservers)" by (rule card_image)
  also have "\<dots> = length nameservers" using dist by (rule distinct_card)
  finally have card: "card (fst ` set ?m) = length nameservers" using keys by simp
  have "length (filter (\<lambda>ip. ip \<noteq> '''') (map fst ?m)) = length (map fst ?m)"
    using nonempty by (simp add: filter_True)
  also have "\<dots> = card (set (map fst ?m))"
    using distinct_card [OF resolveNameservers_distinct [of lookup picks nameservers w]]
    by simp
  also have "\<dots> = length nameservers" using card by simp
  finally show ?thesis .
qed

lemma all_well_formed:
  assumes "\<forall>d\<in>set ds. CHR ''|'' \<notin> set d"
      and "\<forall>ip\<in>fst ` set m. CHR ''|'' \<notin> set ip"
  shows "filter well_formed (dispatch picks m ds) = dispatch picks m ds"
proof -
  have "\<forall>q\<in>set (dispatch picks m ds). well_formed q"
  proof
    fix q
    assume "q \<in> set (dispatch picks m ds)"
    then obtain d ip where "q = d @ ''|'' @ ip" "d \<in> set ds" "ip \<in> fst ` set m"
      unfolding dispatch_iff by blast
    then show "well_formed q" using assms well_formed_job [of d ip] by blast
  qed
  then show ?thesis by (simp add: filter_True)
qed

lemma resolved_keys_no_bar:
  assumes "\<forall>ns\<in>set nameservers. \<exists>ip. resolveNameserver lookup ns = Inr ip \<and> ip \<noteq> ''''
              \<and> CHR ''|'' \<notin> set ip"
  shows "\<forall>ip\<in>fst ` set (resolveNameservers lookup picks nameservers w). CHR ''|'' \<notin> set ip"
proof
  fix ip
  assume ip: "ip \<in> fst ` set (resolveNameservers lookup picks nameservers w)"
  show "CHR ''|'' \<notin> set ip"
  proof (cases "ip = ''''")
    case True
    then show ?thesis by simp
  next
    case False
    from resolved_key [OF ip False] obtain ns
      where "ns \<in> set nameservers" "resolveNameserver lookup ns = Inr ip" by blast
    with assms show ?thesis by force
  qed
qed

text \<open>
  The counters are \<open>int32\<close>: a number below \<open>2^31\<close> is stored as itself, and a larger one is
  not. With 1024 domains and 4194304 lines of nameservers the product is \<open>2^32\<close> and the
  stored total is 0.
\<close>

lemma sint_word_of_nat_32:
  assumes "n < 2 ^ 31"
  shows "sint (word_of_nat n :: 32 word) = int n"
proof -
  have "- (2 ^ 31) \<le> int n" by (rule order_trans [of _ 0]) simp_all
  moreover have "int n < int (2 ^ 31)" using assms by (simp only: of_nat_less_iff)
  then have "int n < 2 ^ 31" by simp
  ultimately have "signed_take_bit 31 (int n) = int n"
    by (simp add: signed_take_bit_int_eq_self)
  then show ?thesis by (simp add: signed_of_nat)
qed

lemma stored_total_wraps: "(word_of_nat (1024 * 4194304) :: 32 word) = 0"
  by simp

text \<open>
  Claim C1, as the code has it, for a run that read its lists, has a positive worker count
  and did not end in a fatal error. The stored total is the low 32 bits of the number of
  domains times the number of input nameservers. A job moves the counter by one when its
  split at the bar gives two parts, whatever the query returns, and not at all otherwise;
  the job of a domain and an address is of the first kind exactly when neither holds a bar.
  After the drain the counter holds the low 32 bits of the number of such jobs among the
  jobs sent. The jobs sent are one for each domain and each non-empty key of the nameserver
  map, and they are never more than the number of domains times the number of input
  nameservers. When no domain holds a bar and the input hostnames are distinct and resolve
  to non-empty addresses without a bar, no two to the same, the counter ends equal to the
  stored total. When the number of domains times the number of input nameservers is below
  \<open>2^31\<close>, the two counters read as signed numbers are that product and the number of
  well-formed jobs sent, and the completed counter does not exceed the stored total.
\<close>

theorem progress_counts_well_formed_jobs:
  assumes w: "0 < cfg_workers cfg"
      and ns: "read_lists (readLines e) (provider_lists cfg) [] = (ev1, Inr nameservers)"
      and ds: "read_domains (readLines e) cfg = (ev2, Inr domainsList)"
      and fin: "fatal_exit (main e s cfg) = None"
  shows "total_stored (main e s cfg) = word_of_nat (length domainsList * length nameservers)
       \<and> (\<forall>query st.
             q_progress (query_job (dnsExchange e) (fmtNoArgs e) (cfg_verbose cfg) query st)
               = q_progress st + (if well_formed query then 1 else 0))
       \<and> (\<forall>d ip. well_formed (d @ ''|'' @ ip) \<longleftrightarrow> CHR ''|'' \<notin> set d \<and> CHR ''|'' \<notin> set ip)
       \<and> q_progress (final (main e s cfg))
           = word_of_nat (length (filter well_formed (queries (main e s cfg))))
       \<and> length (filter well_formed (queries (main e s cfg))) \<le> length (queries (main e s cfg))
       \<and> length (queries (main e s cfg))
           = length (filter (\<lambda>ip. ip \<noteq> '''') (map fst (mapped (main e s cfg))))
             * length domainsList
       \<and> length (queries (main e s cfg)) \<le> length domainsList * length nameservers
       \<and> ((\<forall>d\<in>set domainsList. CHR ''|'' \<notin> set d)
            \<and> (\<forall>ns\<in>set nameservers.
                  \<exists>ip. resolveNameserver (netLookupIP e) ns = Inr ip \<and> ip \<noteq> ''''
                       \<and> CHR ''|'' \<notin> set ip)
            \<and> distinct nameservers
            \<and> inj_on (resolveNameserver (netLookupIP e)) (set nameservers)
           \<longrightarrow> q_progress (final (main e s cfg)) = total_stored (main e s cfg))
       \<and> (length domainsList * length nameservers < 2 ^ 31
           \<longrightarrow> sint (total_stored (main e s cfg)) = int (length domainsList * length nameservers)
             \<and> sint (q_progress (final (main e s cfg)))
                 = int (length (filter well_formed (queries (main e s cfg))))
             \<and> sint (q_progress (final (main e s cfg))) \<le> sint (total_stored (main e s cfg)))"
proof -
  let ?ev = "(if \<not> cfg_quiet cfg then [Banner, Version] else []) @ ev1 @ ev2"
  let ?r = "query_phase e s cfg ?ev nameservers domainsList"
  have r: "main e s cfg = ?r" using w ns ds by (rule main_lists_read)
  have fin': "fatal_exit ?r = None" using fin by (simp only: r)
  have total: "total_stored ?r = word_of_nat (length domainsList * length nameservers)"
    by (rule query_phase_total)
  have job: "\<forall>query st.
             q_progress (query_job (dnsExchange e) (fmtNoArgs e) (cfg_verbose cfg) query st)
               = q_progress st + (if well_formed query then 1 else 0)"
    by (simp only: query_job_progress) simp
  have bar: "\<forall>d ip. well_formed (d @ ''|'' @ ip) \<longleftrightarrow> CHR ''|'' \<notin> set d \<and> CHR ''|'' \<notin> set ip"
    using well_formed_job by blast
  have progress: "q_progress (final ?r) = word_of_nat (length (filter well_formed (queries ?r)))"
    using fin' by (rule query_phase_progress)
  have le1: "length (filter well_formed (queries ?r)) \<le> length (queries ?r)"
    by (rule length_filter_le)
  have len: "length (queries ?r)
           = length (filter (\<lambda>ip. ip \<noteq> '''') (map fst (mapped ?r))) * length domainsList"
    using fin' by (rule query_phase_length_queries)
  have le2: "length (queries ?r) \<le> length domainsList * length nameservers"
    using fin' by (rule query_phase_queries_le)
  have eq: "q_progress (final ?r) = total_stored ?r"
    if nobar: "\<forall>d\<in>set domainsList. CHR ''|'' \<notin> set d"
      and ok: "\<forall>ns\<in>set nameservers.
                  \<exists>ip. resolveNameserver (netLookupIP e) ns = Inr ip \<and> ip \<noteq> ''''
                       \<and> CHR ''|'' \<notin> set ip"
      and dist: "distinct nameservers"
      and inj: "inj_on (resolveNameserver (netLookupIP e)) (set nameservers)"
  proof -
    let ?m = "resolveNameservers (netLookupIP e) (resolve_picks s) nameservers (cfg_workers cfg)"
    have q: "queries ?r = dispatch (range_picks s) ?m domainsList"
      using fin' by (rule query_phase_queries)
    have "\<forall>ip\<in>fst ` set ?m. CHR ''|'' \<notin> set ip"
      using ok by (rule resolved_keys_no_bar)
    with nobar have wf: "filter well_formed (queries ?r) = queries ?r"
      unfolding q by (rule all_well_formed)
    have ok': "\<forall>ns\<in>set nameservers. \<exists>ip. resolveNameserver (netLookupIP e) ns = Inr ip \<and> ip \<noteq> ''''"
      using ok by blast
    have "length (filter (\<lambda>ip. ip \<noteq> '''') (map fst ?m)) = length nameservers"
      using w ok' dist inj by (rule all_resolved_keys)
    then have "length (queries ?r) = length nameservers * length domainsList"
      using len by (simp only: query_phase_mapped)
    then show ?thesis
      using progress total by (simp only: wf mult.commute)
  qed
  have small: "sint (total_stored ?r) = int (length domainsList * length nameservers)
             \<and> sint (q_progress (final ?r)) = int (length (filter well_formed (queries ?r)))
             \<and> sint (q_progress (final ?r)) \<le> sint (total_stored ?r)"
    if bound: "length domainsList * length nameservers < 2 ^ 31"
  proof -
    have n: "length (filter well_formed (queries ?r)) \<le> length domainsList * length nameservers"
      using le1 le2 by (rule order_trans)
    then have "length (filter well_formed (queries ?r)) < 2 ^ 31"
      using bound by (rule le_less_trans)
    then have p: "sint (q_progress (final ?r)) = int (length (filter well_formed (queries ?r)))"
      unfolding progress by (rule sint_word_of_nat_32)
    have t: "sint (total_stored ?r) = int (length domainsList * length nameservers)"
      unfolding total using bound by (rule sint_word_of_nat_32)
    have "int (length (filter well_formed (queries ?r)))
            \<le> int (length domainsList * length nameservers)"
      using n by (simp only: of_nat_le_iff)
    then have "sint (q_progress (final ?r)) \<le> sint (total_stored ?r)"
      by (simp only: p t)
    with p t show ?thesis by blast
  qed
  from total job bar progress le1 len le2 eq small show ?thesis
    unfolding r by blast
qed

lemma sample_two_run:
  "fatal_exit (main sample_env sample_sched (sample_config\<lparr>cfg_nameservers := ''two.txt''\<rparr>)) = None"
  "total_stored (main sample_env sample_sched (sample_config\<lparr>cfg_nameservers := ''two.txt''\<rparr>)) = 2"
  "q_progress (final (main sample_env sample_sched (sample_config\<lparr>cfg_nameservers := ''two.txt''\<rparr>))) = 1"
  "queries (main sample_env sample_sched (sample_config\<lparr>cfg_nameservers := ''two.txt''\<rparr>))
     = [''a.test|203.0.113.5'']"
  by code_simp+

text \<open>
  Claim C1 says that the completed counter equals the stored total once the job channel is
  drained. The total counts every input nameserver, the dispatch loop only the addresses
  that resolved: with the two hostnames of \<open>two.txt\<close>, one of which does not resolve, and
  one domain, the stored total is 2, one job is sent and the counter ends at 1.
\<close>

theorem progress_stays_below_total:
  "fatal_exit (main sample_env sample_sched (sample_config\<lparr>cfg_nameservers := ''two.txt''\<rparr>))
     = None
   \<and> queries (main sample_env sample_sched (sample_config\<lparr>cfg_nameservers := ''two.txt''\<rparr>))
     = [''a.test|203.0.113.5'']
   \<and> total_stored (main sample_env sample_sched (sample_config\<lparr>cfg_nameservers := ''two.txt''\<rparr>))
     = 2
   \<and> q_progress (final (main sample_env sample_sched
                            (sample_config\<lparr>cfg_nameservers := ''two.txt''\<rparr>))) = 1
   \<and> q_progress (final (main sample_env sample_sched
                            (sample_config\<lparr>cfg_nameservers := ''two.txt''\<rparr>)))
     \<noteq> total_stored (main sample_env sample_sched
                       (sample_config\<lparr>cfg_nameservers := ''two.txt''\<rparr>))"
  by (simp add: sample_two_run)

lemma sample_one_reads:
  "read_lists (readLines sample_env) (provider_lists sample_config) []
     = ([OsOpen ''one.txt''], Inr [''ns1.example''])"
  "read_domains (readLines sample_env) sample_config = ([], Inr [''a.test''])"
  "fatal_exit (main sample_env sample_sched sample_config) = None"
  by code_simp+

lemma sample_one_resolves:
  "resolveNameserver (netLookupIP sample_env) ''ns1.example'' = Inr ''203.0.113.5''"
  by (simp add: sample_env_def resolveNameserver_def sample_lookup_def)

text \<open>
  The run of the sample flags: one nameserver, one domain, one job; the counter and the stored
  total both end at 1.
\<close>

theorem progress_counts_well_formed_jobs_witness:
  "0 < cfg_workers sample_config
   \<and> read_lists (readLines sample_env) (provider_lists sample_config) []
       = ([OsOpen ''one.txt''], Inr [''ns1.example''])
   \<and> read_domains (readLines sample_env) sample_config = ([], Inr [''a.test''])
   \<and> fatal_exit (main sample_env sample_sched sample_config) = None
   \<and> CHR ''|'' \<notin> set ''a.test''
   \<and> resolveNameserver (netLookupIP sample_env) ''ns1.example'' = Inr ''203.0.113.5''
   \<and> CHR ''|'' \<notin> set ''203.0.113.5''
   \<and> distinct [''ns1.example'']
   \<and> inj_on (resolveNameserver (netLookupIP sample_env)) (set [''ns1.example''])
   \<and> total_stored (main sample_env sample_sched sample_config) = 1
   \<and> length (queries (main sample_env sample_sched sample_config)) \<le> 1
   \<and> q_progress (final (main sample_env sample_sched sample_config)) = 1
   \<and> length [''a.test''] * length [''ns1.example''] < (2::nat) ^ 31
   \<and> sint (total_stored (main sample_env sample_sched sample_config)) = 1
   \<and> sint (q_progress (final (main sample_env sample_sched sample_config)))
       \<le> sint (total_stored (main sample_env sample_sched sample_config))"
proof -
  have w: "0 < cfg_workers sample_config" by (simp add: sample_config_def)
  note inst = progress_counts_well_formed_jobs
    [OF w sample_one_reads(1) sample_one_reads(2) sample_one_reads(3)]
  have h: "(\<forall>d\<in>set [''a.test'']. CHR ''|'' \<notin> set d)
      \<and> (\<forall>ns\<in>set [''ns1.example''].
            \<exists>ip. resolveNameserver (netLookupIP sample_env) ns = Inr ip \<and> ip \<noteq> ''''
                 \<and> CHR ''|'' \<notin> set ip)
      \<and> distinct [''ns1.example'']
      \<and> inj_on (resolveNameserver (netLookupIP sample_env)) (set [''ns1.example''])"
    by (simp add: sample_one_resolves)
  from inst have total: "total_stored (main sample_env sample_sched sample_config) = 1"
    by simp
  from inst have le: "length (queries (main sample_env sample_sched sample_config)) \<le> 1"
    by simp
  from inst h have "q_progress (final (main sample_env sample_sched sample_config))
      = total_stored (main sample_env sample_sched sample_config)"
    by blast
  with total have p: "q_progress (final (main sample_env sample_sched sample_config)) = 1"
    by simp
  have small: "length [''a.test''] * length [''ns1.example''] < (2::nat) ^ 31" by simp
  from inst small
  have s1: "sint (total_stored (main sample_env sample_sched sample_config))
         = int (length [''a.test''] * length [''ns1.example''])
     \<and> sint (q_progress (final (main sample_env sample_sched sample_config)))
         \<le> sint (total_stored (main sample_env sample_sched sample_config))"
    by blast
  then have signed: "sint (total_stored (main sample_env sample_sched sample_config)) = 1
     \<and> sint (q_progress (final (main sample_env sample_sched sample_config)))
         \<le> sint (total_stored (main sample_env sample_sched sample_config))"
    by simp
  from w total le p small signed show ?thesis
    by (simp add: sample_one_reads sample_one_resolves)
qed

end
